theory Spec2Isabelle
  imports Main "HOL-Library.Word" "HOL-Library.Monad_Syntax"
begin

unbundle bit_operations_syntax

section \<open>Go values\<close>

text \<open>
  The repository holds two programs that share the simulation code word for word:
  \<^verbatim>\<open>src/main.go\<close>, which renders the grid as a triangle mesh, and
  \<^verbatim>\<open>src/unnamed/part_000\<close>, which renders it into a pixel buffer.

  Fixed-width Go integers are words: \<^verbatim>\<open>int64\<close> cell values and counters,
  \<^verbatim>\<open>uint16\<close> triangle indices and cursors, \<^verbatim>\<open>byte\<close> pixels; their
  arithmetic wraps as Go's does. Go's \<^verbatim>\<open>int\<close> (grid and screen dimensions,
  loop counters, slice positions) is modelled by \<open>int\<close>. On the frame path its values
  are positions in a slice or bounded by one, with one exception: the corner coordinates
  \<^verbatim>\<open>UpdateTriangles\<close> computes from the cell size. \<^verbatim>\<open>Init\<close> multiplies the screen
  sides before it allocates anything. What is proved about these two is stated for values in
  the range that a 32-bit and a 64-bit \<^verbatim>\<open>int\<close> share, where nothing wraps. Memory is taken
  to suffice for every allocation.
  A run-time panic (index out of range, integer division by zero, \<^verbatim>\<open>make\<close> with a
  negative length) is the value \<open>None\<close>.
\<close>

type_synonym int64 = "64 word"
type_synonym uint16 = "16 word"
type_synonym byte = "8 word"

definition at :: "'a list \<Rightarrow> int \<Rightarrow> 'a option" where
  \<comment> \<open>\<^verbatim>\<open>xs[i]\<close> read: panics out of range.\<close>
  "at xs i = (if 0 \<le> i \<and> i < int (length xs) then Some (xs ! nat i) else None)"

definition put :: "'a list \<Rightarrow> int \<Rightarrow> 'a \<Rightarrow> 'a list option" where
  \<comment> \<open>\<^verbatim>\<open>xs[i] = v\<close>: panics out of range.\<close>
  "put xs i v = (if 0 \<le> i \<and> i < int (length xs) then Some (xs[nat i := v]) else None)"

definition make_slice :: "int \<Rightarrow> 'a \<Rightarrow> 'a list option" where
  \<comment> \<open>\<^verbatim>\<open>make([]T, n)\<close>: \<open>n\<close> zero values; panics when \<open>n\<close> is negative.\<close>
  "make_slice n z = (if n < 0 then None else Some (replicate (nat n) z))"

definition go_quo :: "int \<Rightarrow> int \<Rightarrow> int option" where
  \<comment> \<open>Go's \<^verbatim>\<open>a / b\<close> on integers: truncated towards zero, panics when \<open>b = 0\<close>.\<close>
  "go_quo a b = (if b = 0 then None else Some (sgn a * sgn b * (\<bar>a\<bar> div \<bar>b\<bar>)))"

definition go_rem :: "int \<Rightarrow> int \<Rightarrow> int option" where
  \<comment> \<open>Go's \<^verbatim>\<open>a % b\<close>: the sign of the dividend, panics when \<open>b = 0\<close>.\<close>
  "go_rem a b = (if b = 0 then None else Some (sgn a * (\<bar>a\<bar> mod \<bar>b\<bar>)))"

function for_loop :: "int \<Rightarrow> int \<Rightarrow> (int \<Rightarrow> 's \<Rightarrow> 's option) \<Rightarrow> 's \<Rightarrow> 's option" where
  \<comment> \<open>\<^verbatim>\<open>for i := lo; i < n; i++ { body }\<close>, the body acting on the state \<open>s\<close>.\<close>
  "for_loop i n body s =
     (if i < n then (case body i s of None \<Rightarrow> None | Some s' \<Rightarrow> for_loop (i + 1) n body s')
      else Some s)"
  by pat_completeness auto
termination
  by (relation "measure (\<lambda>(i, n, body, s). nat (n - i))") auto

declare for_loop.simps [simp del]

section \<open>The grid and the game\<close>

record Grid =
  Data :: "int64 list list"
  GridWidth :: int
  GridHeight :: int
  GridDensity :: int

text \<open>
  The fields both programs' \<^verbatim>\<open>Game\<close> structs share. \<^verbatim>\<open>Grids\<close> holds two
  pointers to grids that \<^verbatim>\<open>Init\<close> allocates separately (each row with its own
  \<^verbatim>\<open>make\<close>), so no two cells share storage and the grids are modelled by value. The
  images (\<^verbatim>\<open>Tiles\<close>, \<^verbatim>\<open>Cache\<close>, \<^verbatim>\<open>OffScreen\<close>) belong to the rendering
  library and are left out.
\<close>

record Game =
  Width :: int
  Height :: int
  Cellsize :: int
  Density :: int
  ScreenWidth :: int
  ScreenHeight :: int
  Grids :: "Grid list"
  Index :: int
  Elapsed :: int64
  TPG :: int64
  Pause :: bool
  Debug :: bool

record RGBA =
  ColR :: byte
  ColG :: byte
  ColB :: byte
  ColA :: byte

text \<open>
  \<^verbatim>\<open>ebiten.Vertex\<close>. Its fields are \<^verbatim>\<open>float32\<close>; every value the code stores in
  one is the conversion of an integer (a screen coordinate, a colour byte, the constant 1),
  and a field is modelled by that integer. The conversion is exact up to \<open>2^24\<close>; what is
  proved about stored coordinates is stated for screens within that bound.
\<close>

record Vertex =
  DstX :: int
  DstY :: int
  SrcX :: int
  SrcY :: int
  ColorR :: int
  ColorG :: int
  ColorB :: int
  ColorA :: int

definition zero_vertex :: Vertex where
  \<comment> \<open>\<^verbatim>\<open>ebiten.Vertex{}\<close>\<close>
  "zero_vertex = \<lparr>DstX = 0, DstY = 0, SrcX = 0, SrcY = 0,
                  ColorR = 0, ColorG = 0, ColorB = 0, ColorA = 0\<rparr>"

record MeshGame = Game +
  Black :: RGBA
  White :: RGBA
  Grey :: RGBA
  Vertices :: "Vertex list"
  Indices :: "uint16 list"

record PixelGame = Game +
  Profile :: bool
  Gridlines :: bool
  Pixels :: "byte list"

definition cell :: "'a Game_scheme \<Rightarrow> int \<Rightarrow> int \<Rightarrow> int \<Rightarrow> int64 option" where
  \<comment> \<open>\<^verbatim>\<open>game.Grids[i].Data[row][col]\<close>\<close>
  "cell game i row col = do {
     g \<leftarrow> at (Grids game) i;
     r \<leftarrow> at (Data g) row;
     at r col }"

definition set_cell :: "'a Game_scheme \<Rightarrow> int \<Rightarrow> int \<Rightarrow> int \<Rightarrow> int64 \<Rightarrow> 'a Game_scheme option" where
  \<comment> \<open>\<^verbatim>\<open>game.Grids[i].Data[row][col] = v\<close>\<close>
  "set_cell game i row col v = do {
     g \<leftarrow> at (Grids game) i;
     r \<leftarrow> at (Data g) row;
     r' \<leftarrow> put r col v;
     d' \<leftarrow> put (Data g) row r';
     gs' \<leftarrow> put (Grids game) i (g\<lparr>Data := d'\<rparr>);
     Some (game\<lparr>Grids := gs'\<rparr>) }"

section \<open>The simulation (the same text in both files)\<close>

definition CountNeighbors :: "'a Game_scheme \<Rightarrow> int \<Rightarrow> int \<Rightarrow> int64 option" where
  "CountNeighbors game x y = do {
     sum \<leftarrow> for_loop (- 1) 2 (\<lambda>nbgX. for_loop (- 1) 2 (\<lambda>nbgY sum. do {
              col \<leftarrow> go_rem (x + nbgX + Width game) (Width game);
              row \<leftarrow> go_rem (y + nbgY + Height game) (Height game);
              v \<leftarrow> cell game (Index game) row col;
              Some (sum + v) })) 0;
     self \<leftarrow> cell game (Index game) y x;
     Some (sum - self) }"

definition CheckRule :: "int64 \<Rightarrow> int64 \<Rightarrow> int64" where
  "CheckRule state neighbors =
     (if state = 0 \<and> neighbors = 3 then 1
      else if state = 1 \<and> (neighbors = 2 \<or> neighbors = 3) then 1
      else 0)"

definition next_generation :: "'a Game_scheme \<Rightarrow> int \<Rightarrow> 'a Game_scheme option" where
  \<comment> \<open>The doubly nested loop of \<^verbatim>\<open>UpdateCells\<close>, writing grid \<open>next\<close>.\<close>
  "next_generation game next =
     for_loop 0 (Height game) (\<lambda>y. for_loop 0 (Width game) (\<lambda>x game. do {
       state \<leftarrow> cell game (Index game) y x;
       neighbors \<leftarrow> CountNeighbors game x y;
       set_cell game next y x (CheckRule state neighbors) })) game"

section \<open>The mesh program (src/main.go)\<close>

definition ClearVertices :: "MeshGame \<Rightarrow> MeshGame option" where
  "ClearVertices game = do {
     game \<leftarrow> for_loop 0 (int (length (Vertices game))) (\<lambda>i game. do {
               vs \<leftarrow> put (Vertices game) i zero_vertex;
               Some (game\<lparr>Vertices := vs\<rparr>) }) game;
     Some (game\<lparr>Indices := take (length (Indices game)) (Indices game)\<rparr>) }"

definition corner :: "MeshGame \<Rightarrow> int \<Rightarrow> int \<Rightarrow> int \<Rightarrow> int \<Rightarrow> Vertex \<Rightarrow> Vertex" where
  \<comment> \<open>The eight field assignments to \<^verbatim>\<open>game.Vertices[idx]\<close> for corner \<open>(i, j)\<close>;
      \<^verbatim>\<open>float32(x)\<close> is \<open>x\<close> itself up to \<open>2^24\<close>.\<close>
  "corner game cellx celly i j v =
     (let x = cellx * Cellsize game + i * Cellsize game + 1;
          y = celly * Cellsize game + j * Cellsize game + 1;
          x = (if i = 1 then x - 1 else x);
          y = (if j = 1 then y - 1 else y)
      in v\<lparr>DstX := x, DstY := y, SrcX := 1, SrcY := 1,
           ColorR := uint (ColR (Black game)),
           ColorG := uint (ColG (Black game)),
           ColorB := uint (ColB (Black game)),
           ColorA := 1\<rparr>)"

definition set_vertex :: "MeshGame \<Rightarrow> int \<Rightarrow> (Vertex \<Rightarrow> Vertex) \<Rightarrow> MeshGame option" where
  \<comment> \<open>Assignments to fields of \<^verbatim>\<open>game.Vertices[idx]\<close>\<close>
  "set_vertex game idx f = do {
     v \<leftarrow> at (Vertices game) idx;
     vs \<leftarrow> put (Vertices game) idx (f v);
     Some (game\<lparr>Vertices := vs\<rparr>) }"

definition set_index :: "MeshGame \<Rightarrow> uint16 \<Rightarrow> uint16 \<Rightarrow> MeshGame option" where
  \<comment> \<open>\<^verbatim>\<open>game.Indices[index] = v\<close>, the position a \<^verbatim>\<open>uint16\<close>\<close>
  "set_index game index v = do {
     ixs \<leftarrow> put (Indices game) (uint index) v;
     Some (game\<lparr>Indices := ixs\<rparr>) }"

definition fill_corners :: "MeshGame \<Rightarrow> int \<Rightarrow> int \<Rightarrow> int \<Rightarrow> (MeshGame \<times> int) option" where
  \<comment> \<open>The loops over \<open>i\<close> and \<open>j\<close> of \<^verbatim>\<open>UpdateTriangles\<close> for an alive cell.\<close>
  "fill_corners game cellx celly idx =
     for_loop 0 2 (\<lambda>i. for_loop 0 2 (\<lambda>j (game, idx). do {
       game \<leftarrow> set_vertex game idx (corner game cellx celly i j);
       Some (game, idx + 1) })) (game, idx)"

definition write_quad :: "MeshGame \<Rightarrow> uint16 \<Rightarrow> uint16 \<Rightarrow> MeshGame option" where
  \<comment> \<open>The six index assignments of \<^verbatim>\<open>UpdateTriangles\<close> for one cell.\<close>
  "write_quad game index base = do {
     game \<leftarrow> set_index game index base;
     game \<leftarrow> set_index game (index + 1) (base + 1);
     game \<leftarrow> set_index game (index + 2) (base + 3);
     game \<leftarrow> set_index game (index + 3) base;
     game \<leftarrow> set_index game (index + 4) (base + 2);
     set_index game (index + 5) (base + 3) }"

type_synonym tri_state = "MeshGame \<times> uint16 \<times> uint16 \<times> int"

definition tri_cell :: "int \<Rightarrow> int \<Rightarrow> tri_state \<Rightarrow> tri_state option" where
  \<comment> \<open>The body of the loop over \<open>cellx\<close>; the state is the game with the cursors
      \<open>base\<close>, \<open>index\<close> and \<open>idx\<close>.\<close>
  "tri_cell celly cellx = (\<lambda>(game, base, index, idx). do {
     alive \<leftarrow> cell game (Index game) celly cellx;
     (game, idx) \<leftarrow> (if alive = 1 then fill_corners game cellx celly idx
                      else Some (game, idx));
     game \<leftarrow> write_quad game index base;
     Some (game, base + 4, index + 6, idx) })"

definition UpdateTriangles :: "MeshGame \<Rightarrow> MeshGame option" where
  "UpdateTriangles game = do {
     (game, base, index, idx) \<leftarrow>
        for_loop 0 (Height game) (\<lambda>celly. for_loop 0 (Width game) (tri_cell celly))
          (game, 0, 0, 0);
     Some game }"

definition UpdateCells_mesh :: "MeshGame \<Rightarrow> MeshGame option" where
  \<comment> \<open>\<^verbatim>\<open>UpdateCells\<close> of src/main.go. \<^verbatim>\<open>Dump\<close> only prints.\<close>
  "UpdateCells_mesh game =
     (if Pause game then Some game
      else if sint (Elapsed game) < sint (TPG game)
        then Some (game\<lparr>Elapsed := Elapsed game + 1\<rparr>)
      else do {
        let next = Index game XOR 1;
        game \<leftarrow> ClearVertices game;
        game \<leftarrow> next_generation game next;
        game \<leftarrow> UpdateTriangles game;
        let game = game\<lparr>Index := Index game XOR 1\<rparr>;
        let game = game\<lparr>Elapsed := 0\<rparr>;
        if Debug game then do { _ \<leftarrow> at (Grids game) next; Some game } else Some game })"

definition Update_mesh :: "bool \<Rightarrow> MeshGame \<Rightarrow> MeshGame option" where
  \<comment> \<open>\<^verbatim>\<open>Update\<close>; \<open>key\<close> is what \<^verbatim>\<open>IsKeyJustPressed(KeySpace)\<close> returns.\<close>
  "Update_mesh key game = do {
     game \<leftarrow> UpdateCells_mesh game;
     Some (if key then game\<lparr>Pause := \<not> Pause game\<rparr> else game) }"

section \<open>The pixel program (src/unnamed/part_000)\<close>

definition set_pixel :: "PixelGame \<Rightarrow> int \<Rightarrow> byte \<Rightarrow> PixelGame option" where
  \<comment> \<open>\<^verbatim>\<open>game.Pixels[i] = v\<close>\<close>
  "set_pixel game i v = do {
     ps \<leftarrow> put (Pixels game) i v;
     Some (game\<lparr>Pixels := ps\<rparr>) }"

definition pixel_colour :: "PixelGame \<Rightarrow> int \<Rightarrow> int \<Rightarrow> byte option" where
  \<comment> \<open>The value of \<^verbatim>\<open>col\<close> for screen pixel \<open>(x, y)\<close>; \<^verbatim>\<open>||\<close> evaluates its
      right operand only when the left one is false.\<close>
  "pixel_colour game x y = do {
     gridx \<leftarrow> go_quo x (Cellsize game);
     gridy \<leftarrow> go_quo y (Cellsize game);
     alive \<leftarrow> cell game (Index game) gridy gridx;
     let col = (if alive = 1 then 0x0 else 0xff);
     if Gridlines game then do {
       rx \<leftarrow> go_rem x (Cellsize game);
       online \<leftarrow> (if rx = 0 then Some True
                   else do { ry \<leftarrow> go_rem y (Cellsize game); Some (ry = 0) });
       Some (if online then 128 else col) }
     else Some col }"

definition draw_pixel :: "int \<Rightarrow> int \<Rightarrow> PixelGame \<Rightarrow> PixelGame option" where
  \<comment> \<open>The body of the loop over \<open>x\<close> of \<^verbatim>\<open>UpdatePixels\<close>. The closing \<^verbatim>\<open>idx++\<close>
      has no effect: \<^verbatim>\<open>idx\<close> is assigned anew before its next use.\<close>
  "draw_pixel y x game = do {
     col \<leftarrow> pixel_colour game x y;
     let idx = 4 * (x + y * ScreenWidth game);
     game \<leftarrow> set_pixel game idx col;
     game \<leftarrow> set_pixel game (idx + 1) col;
     game \<leftarrow> set_pixel game (idx + 2) col;
     set_pixel game (idx + 3) 0xff }"

definition UpdatePixels :: "PixelGame \<Rightarrow> PixelGame option" where
  \<comment> \<open>\<^verbatim>\<open>WritePixels\<close> hands the buffer to the rendering library.\<close>
  "UpdatePixels game =
     for_loop 0 (ScreenHeight game) (\<lambda>y. for_loop 0 (ScreenWidth game) (draw_pixel y)) game"

definition UpdateCells_pixel :: "PixelGame \<Rightarrow> PixelGame option" where
  \<comment> \<open>\<^verbatim>\<open>UpdateCells\<close> of src/unnamed/part_000\<close>
  "UpdateCells_pixel game =
     (if Pause game then Some game
      else if sint (Elapsed game) < sint (TPG game)
        then Some (game\<lparr>Elapsed := Elapsed game + 1\<rparr>)
      else do {
        let next = Index game XOR 1;
        game \<leftarrow> next_generation game next;
        let game = game\<lparr>Index := Index game XOR 1\<rparr>;
        let game = game\<lparr>Elapsed := 0\<rparr>;
        UpdatePixels game })"

definition Update_pixel :: "bool \<Rightarrow> PixelGame \<Rightarrow> PixelGame option" where
  "Update_pixel key game = do {
     game \<leftarrow> UpdateCells_pixel game;
     Some (if key then game\<lparr>Pause := \<not> Pause game\<rparr> else game) }"

section \<open>Initialisation\<close>

definition NewGrid :: "int \<Rightarrow> int \<Rightarrow> int \<Rightarrow> Grid option" where
  "NewGrid width height density = do {
     d \<leftarrow> make_slice height [];
     for_loop 0 height (\<lambda>y grid. do {
         r \<leftarrow> make_slice width 0;
         d \<leftarrow> put (Data grid) y r;
         Some (grid\<lparr>Data := d\<rparr>) })
       \<lparr>Data = d, GridWidth = width, GridHeight = height, GridDensity = density\<rparr> }"

definition seed_grid :: "(int \<Rightarrow> int \<Rightarrow> int) \<Rightarrow> 'a Game_scheme \<Rightarrow> Grid \<Rightarrow> Grid option" where
  \<comment> \<open>The seeding loop of \<^verbatim>\<open>Init\<close>. \<open>rnd x y\<close> is the number \<^verbatim>\<open>rand.Intn\<close>
      returns for cell \<open>(x, y)\<close>; \<^verbatim>\<open>rand.Intn(n)\<close> panics unless \<open>n > 0\<close>.\<close>
  "seed_grid rnd game grida =
     for_loop 0 (Height game) (\<lambda>y. for_loop 0 (Width game) (\<lambda>x grida.
       if Density game \<le> 0 then None
       else if rnd x y = 1 then do {
         r \<leftarrow> at (Data grida) y;
         r' \<leftarrow> put r x 1;
         d \<leftarrow> put (Data grida) y r';
         Some (grida\<lparr>Data := d\<rparr>) }
       else Some grida)) grida"

definition NewImage :: "int \<Rightarrow> int \<Rightarrow> unit option" where
  \<comment> \<open>\<^verbatim>\<open>ebiten.NewImage(width, height)\<close> panics unless both sides are at least 1. The
      image it returns belongs to the rendering library and is not kept.\<close>
  "NewImage width height = (if width < 1 \<or> height < 1 then None else Some ())"

definition Init_mesh :: "(int \<Rightarrow> int \<Rightarrow> int) \<Rightarrow> MeshGame \<Rightarrow> MeshGame option" where
  \<comment> \<open>\<^verbatim>\<open>Init\<close> of src/main.go. Of the images only their allocation is kept, which can
      panic; filling and drawing them does not touch the game.\<close>
  "Init_mesh rnd game = do {
     grida \<leftarrow> NewGrid (Width game) (Height game) (Density game);
     gridb \<leftarrow> NewGrid (Width game) (Height game) (Density game);
     grida \<leftarrow> seed_grid rnd game grida;
     let game = game\<lparr>Grids := [grida, gridb]\<rparr>;
     let game = game\<lparr>Grey := \<lparr>ColR = 128, ColG = 128, ColB = 128, ColA = 0xff\<rparr>\<rparr>;
     let game = game\<lparr>Black := \<lparr>ColR = 0, ColG = 0, ColB = 0, ColA = 0xff\<rparr>\<rparr>;
     let game = game\<lparr>White := \<lparr>ColR = 200, ColG = 200, ColB = 200, ColA = 0xff\<rparr>\<rparr>;
     _ \<leftarrow> NewImage (Cellsize game) (Cellsize game);
     _ \<leftarrow> NewImage (ScreenWidth game) (ScreenHeight game);
     let lenvertices = ScreenHeight game * ScreenWidth game;
     vs \<leftarrow> make_slice lenvertices zero_vertex;
     half \<leftarrow> go_quo lenvertices 2;
     ixs \<leftarrow> make_slice (lenvertices + half) 0;
     Some (game\<lparr>Vertices := vs, Indices := ixs\<rparr>) }"

definition Init_pixel :: "(int \<Rightarrow> int \<Rightarrow> int) \<Rightarrow> PixelGame \<Rightarrow> PixelGame option" where
  \<comment> \<open>\<^verbatim>\<open>Init\<close> of src/unnamed/part_000; the off-screen image is allocated last.\<close>
  "Init_pixel rnd game = do {
     grida \<leftarrow> NewGrid (Width game) (Height game) (Density game);
     gridb \<leftarrow> NewGrid (Width game) (Height game) (Density game);
     grida \<leftarrow> seed_grid rnd game grida;
     let game = game\<lparr>Grids := [grida, gridb]\<rparr>;
     ps \<leftarrow> make_slice (ScreenWidth game * ScreenHeight game * 4) 0;
     let game = game\<lparr>Pixels := ps\<rparr>;
     _ \<leftarrow> NewImage (ScreenWidth game) (ScreenHeight game);
     Some game }"

text \<open>
  The configurations of the two \<^verbatim>\<open>main\<close> functions, before \<^verbatim>\<open>Init\<close>; fields a literal
  does not name have Go's zero value. The literal of the pixel program writes
  \<^verbatim>\<open>GridLines: false\<close> for the field \<^verbatim>\<open>Gridlines\<close>, which is false either way.
\<close>

definition main_mesh :: MeshGame where
  "main_mesh =
     \<lparr>Width = 200, Height = 200, Cellsize = 4, Density = 5,
      ScreenWidth = 200 * 4, ScreenHeight = 200 * 4,
      Grids = [], Index = 0, Elapsed = 0, TPG = 5, Pause = False, Debug = True,
      Black = \<lparr>ColR = 0, ColG = 0, ColB = 0, ColA = 0\<rparr>,
      White = \<lparr>ColR = 0, ColG = 0, ColB = 0, ColA = 0\<rparr>,
      Grey = \<lparr>ColR = 0, ColG = 0, ColB = 0, ColA = 0\<rparr>,
      Vertices = [], Indices = []\<rparr>"

definition main_pixel :: PixelGame where
  "main_pixel =
     \<lparr>Width = 500, Height = 500, Cellsize = 4, Density = 8,
      ScreenWidth = 500 * 4, ScreenHeight = 500 * 4,
      Grids = [], Index = 0, Elapsed = 0, TPG = 10, Pause = False, Debug = False,
      Profile = False, Gridlines = False, Pixels = []\<rparr>"

section \<open>Successive frames\<close>

text \<open>
  The host loop calls \<^verbatim>\<open>Update\<close> once per tick; \<open>keys\<close> lists, tick by tick, whether the
  space key was just pressed.
\<close>

fun frames_mesh :: "bool list \<Rightarrow> MeshGame \<Rightarrow> MeshGame option" where
  "frames_mesh [] game = Some game"
| "frames_mesh (key # keys) game =
     (case Update_mesh key game of None \<Rightarrow> None | Some game' \<Rightarrow> frames_mesh keys game')"

fun frames_pixel :: "bool list \<Rightarrow> PixelGame \<Rightarrow> PixelGame option" where
  "frames_pixel [] game = Some game"
| "frames_pixel (key # keys) game =
     (case Update_pixel key game of None \<Rightarrow> None | Some game' \<Rightarrow> frames_pixel keys game')"

section \<open>The shape of a game\<close>

text \<open>
  What \<^verbatim>\<open>Init\<close> establishes and every frame keeps: two grids of \<open>Height\<close> rows of
  \<open>Width\<close> cells each, and an index that names one of them.
\<close>

definition grids_ok :: "'a Game_scheme \<Rightarrow> bool" where
  "grids_ok game \<longleftrightarrow>
     0 \<le> Width game \<and> 0 \<le> Height game \<and> (Index game = 0 \<or> Index game = 1) \<and>
     length (Grids game) = 2 \<and>
     (\<forall>g \<in> set (Grids game). length (Data g) = nat (Height game) \<and>
        (\<forall>r \<in> set (Data g). length r = nat (Width game)))"

text \<open>The grid being displayed, and its cell at a position taken modulo the dimensions.\<close>

definition active :: "'a Game_scheme \<Rightarrow> int64 list list" where
  "active game = Data (Grids game ! nat (Index game))"

definition wrapped :: "'a Game_scheme \<Rightarrow> int \<Rightarrow> int \<Rightarrow> int64" where
  "wrapped game x y = active game ! nat (y mod Height game) ! nat (x mod Width game)"

text \<open>A list of \<open>h\<close> rows of \<open>w\<close> cells.\<close>

definition shaped :: "int \<Rightarrow> int \<Rightarrow> int64 list list \<Rightarrow> bool" where
  "shaped w h d \<longleftrightarrow> length d = nat h \<and> (\<forall>r<nat h. length (d ! r) = nat w)"

text \<open>
  Go's \<^verbatim>\<open>int\<close> is 32 or 64 bits wide. A value in the range of the narrower one is an
  \<^verbatim>\<open>int\<close> on every platform, and arithmetic whose results stay in that range does not wrap.
\<close>

definition int32 :: "int \<Rightarrow> bool" where
  "int32 n \<longleftrightarrow> - (2 ^ 31) \<le> n \<and> n < 2 ^ 31"

definition int32_fields :: "'a Game_scheme \<Rightarrow> bool" where
  "int32_fields game \<longleftrightarrow>
     int32 (Width game) \<and> int32 (Height game) \<and> int32 (Cellsize game) \<and> int32 (Density game) \<and>
     int32 (ScreenWidth game) \<and> int32 (ScreenHeight game)"

section \<open>Describing a generation\<close>

text \<open>The game with the cells of grid \<open>n\<close> replaced.\<close>

definition with_data :: "'a Game_scheme \<Rightarrow> nat \<Rightarrow> int64 list list \<Rightarrow> 'a Game_scheme" where
  "with_data game n d = game\<lparr>Grids := (Grids game)[n := (Grids game ! n)\<lparr>Data := d\<rparr>]\<rparr>"

text \<open>
  The value the rule gives cell \<open>(x, y)\<close> of the displayed grid, and the cells of the
  other grid while \<^verbatim>\<open>UpdateCells\<close> is about to write cell \<open>(k, y)\<close>: the cells before
  it in row-major order hold their new value, the others what they held.
\<close>

definition stepped :: "'a Game_scheme \<Rightarrow> int \<Rightarrow> int \<Rightarrow> int64" where
  "stepped g x y = CheckRule (active g ! nat y ! nat x) (the (CountNeighbors g x y))"

definition partial_data ::
  "'a Game_scheme \<Rightarrow> int \<Rightarrow> int \<Rightarrow> int64 list list \<Rightarrow> bool" where
  "partial_data g y k d \<longleftrightarrow>
     length d = nat (Height g) \<and> (\<forall>r<nat (Height g). length (d ! r) = nat (Width g)) \<and>
     (\<forall>r<nat (Height g). \<forall>c<nat (Width g).
        d ! r ! c = (if int r < y \<or> (int r = y \<and> int c < k) then stepped g (int c) (int r)
                     else Data (Grids g ! nat (Index g XOR 1)) ! r ! c))"

section \<open>Describing the mesh\<close>

text \<open>
  Buffers large enough for \<^verbatim>\<open>UpdateTriangles\<close>: four vertices for every cell, and an
  index buffer that either covers every value of the \<^verbatim>\<open>uint16\<close> cursor or holds six
  indices for every cell without the cursor wrapping.
\<close>

definition buffers_ok :: "MeshGame \<Rightarrow> bool" where
  "buffers_ok game \<longleftrightarrow>
     4 * (Width game * Height game) \<le> int (length (Vertices game)) \<and>
     (65536 \<le> length (Indices game) \<or>
      (6 * (Width game * Height game) \<le> int (length (Indices game)) \<and>
       6 * (Width game * Height game) \<le> 65536))"

text \<open>
  The vertex \<^verbatim>\<open>UpdateTriangles\<close> writes for corner \<open>(i, j)\<close> of a cell (all eight fields
  are assigned, so it does not depend on what the entry held), the four vertices of a cell,
  the alive cells among the first \<open>q\<close> cells in row-major order, and their vertices.
\<close>

definition quad_vertex :: "MeshGame \<Rightarrow> int \<Rightarrow> int \<Rightarrow> int \<Rightarrow> int \<Rightarrow> Vertex" where
  "quad_vertex g x y i j = corner g x y i j zero_vertex"

definition cell_quad :: "MeshGame \<Rightarrow> int \<Rightarrow> int \<Rightarrow> Vertex list" where
  "cell_quad g x y =
     [quad_vertex g x y 0 0, quad_vertex g x y 0 1, quad_vertex g x y 1 0, quad_vertex g x y 1 1]"

definition alive_before :: "'a Game_scheme \<Rightarrow> nat \<Rightarrow> nat list" where
  "alive_before g q =
     filter (\<lambda>p. active g ! (p div nat (Width g)) ! (p mod nat (Width g)) = 1) [0..<q]"

definition quads_before :: "MeshGame \<Rightarrow> nat \<Rightarrow> Vertex list" where
  "quads_before g q =
     concat (map (\<lambda>p. cell_quad g (int (p mod nat (Width g))) (int (p div nat (Width g))))
                 (alive_before g q))"



text \<open>
  The six index assignments for the cell at row-major position \<open>q\<close>, with the cursors
  \<^verbatim>\<open>index\<close> and \<^verbatim>\<open>base\<close> as \<^verbatim>\<open>uint16\<close> values, and the index buffer after the
  first \<open>n\<close> cells.
\<close>

definition put_quad :: "uint16 list \<Rightarrow> nat \<Rightarrow> uint16 list" where
  "put_quad ixs q =
     (let index = (word_of_nat (6 * q) :: uint16); base = (word_of_nat (4 * q) :: uint16)
      in ixs[unat index := base, unat (index + 1) := base + 1, unat (index + 2) := base + 3,
             unat (index + 3) := base, unat (index + 4) := base + 2,
             unat (index + 5) := base + 3])"

definition indices_after :: "uint16 list \<Rightarrow> nat \<Rightarrow> uint16 list" where
  "indices_after ixs n = foldl put_quad ixs [0..<n]"

text \<open>The state of \<^verbatim>\<open>UpdateTriangles\<close> when it reaches the cell at position \<open>q\<close>.\<close>

definition tri_at :: "MeshGame \<Rightarrow> nat \<Rightarrow> tri_state" where
  "tri_at g q =
     (g\<lparr>Vertices := quads_before g q @ drop (length (quads_before g q)) (Vertices g),
        Indices := indices_after (Indices g) q\<rparr>,
      word_of_nat (4 * q), word_of_nat (6 * q), int (length (quads_before g q)))"

section \<open>Describing the pixels\<close>

text \<open>
  A screen covered by the grid, and a pixel buffer with four bytes for every screen pixel.
\<close>

definition pixels_ok :: "PixelGame \<Rightarrow> bool" where
  "pixels_ok game \<longleftrightarrow>
     0 < Cellsize game \<and> 0 \<le> ScreenWidth game \<and> 0 \<le> ScreenHeight game \<and>
     ScreenWidth game \<le> Width game * Cellsize game \<and>
     ScreenHeight game \<le> Height game * Cellsize game \<and>
     4 * (ScreenWidth game * ScreenHeight game) \<le> int (length (Pixels game))"

text \<open>
  The grey level of screen pixel \<open>(x, y)\<close>, the bytes of the first \<open>q\<close> pixels in row-major
  order, and the game when \<^verbatim>\<open>UpdatePixels\<close> reaches pixel number \<open>q\<close>.
\<close>

definition shade :: "PixelGame \<Rightarrow> int \<Rightarrow> int \<Rightarrow> byte" where
  "shade g x y =
     (if Gridlines g \<and> (x mod Cellsize g = 0 \<or> y mod Cellsize g = 0) then 128
      else if active g ! nat (y div Cellsize g) ! nat (x div Cellsize g) = 1 then 0x0
      else 0xff)"

definition pixels_before :: "PixelGame \<Rightarrow> nat \<Rightarrow> byte list" where
  "pixels_before g q =
     concat (map (\<lambda>p. let c = shade g (int (p mod nat (ScreenWidth g))) (int (p div nat (ScreenWidth g)))
                       in [c, c, c, 0xff]) [0..<q])"

definition pix_at :: "PixelGame \<Rightarrow> nat \<Rightarrow> PixelGame" where
  "pix_at g q = g\<lparr>Pixels := pixels_before g q @ drop (4 * q) (Pixels g)\<rparr>"

section \<open>Small games for evaluation\<close>

definition torus3 :: Game where
  \<comment> \<open>A 3 x 3 grid with its main diagonal alive.\<close>
  "torus3 =
     \<lparr>Width = 3, Height = 3, Cellsize = 4, Density = 5, ScreenWidth = 12, ScreenHeight = 12,
      Grids = [\<lparr>Data = [[1, 0, 0], [0, 1, 0], [0, 0, 1]],
                 GridWidth = 3, GridHeight = 3, GridDensity = 5\<rparr>,
               \<lparr>Data = [[0, 0, 0], [0, 0, 0], [0, 0, 0]],
                 GridWidth = 3, GridHeight = 3, GridDensity = 5\<rparr>],
      Index = 0, Elapsed = 5, TPG = 5, Pause = False, Debug = False\<rparr>"

text \<open>
  A mesh game of two cells, the right one alive, and a pixel game of one alive cell; the
  buffers have the lengths \<^verbatim>\<open>Init\<close> gives them.
\<close>

definition mesh_two :: MeshGame where
  "mesh_two =
     \<lparr>Width = 2, Height = 1, Cellsize = 2, Density = 5, ScreenWidth = 4, ScreenHeight = 2,
      Grids = [\<lparr>Data = [[0, 1]], GridWidth = 2, GridHeight = 1, GridDensity = 5\<rparr>,
               \<lparr>Data = [[0, 0]], GridWidth = 2, GridHeight = 1, GridDensity = 5\<rparr>],
      Index = 0, Elapsed = 5, TPG = 5, Pause = False, Debug = True,
      Black = \<lparr>ColR = 0, ColG = 0, ColB = 0, ColA = 0xff\<rparr>,
      White = \<lparr>ColR = 200, ColG = 200, ColB = 200, ColA = 0xff\<rparr>,
      Grey = \<lparr>ColR = 128, ColG = 128, ColB = 128, ColA = 0xff\<rparr>,
      Vertices = replicate 8 zero_vertex, Indices = replicate 12 0\<rparr>"

definition pixel_one :: PixelGame where
  "pixel_one =
     \<lparr>Width = 1, Height = 1, Cellsize = 2, Density = 8, ScreenWidth = 2, ScreenHeight = 2,
      Grids = [\<lparr>Data = [[1]], GridWidth = 1, GridHeight = 1, GridDensity = 8\<rparr>,
               \<lparr>Data = [[0]], GridWidth = 1, GridHeight = 1, GridDensity = 8\<rparr>],
      Index = 0, Elapsed = 10, TPG = 10, Pause = False, Debug = False,
      Profile = False, Gridlines = True, Pixels = replicate 16 7\<rparr>"

text \<open>
  A mesh game of one alive cell, and the games \<^verbatim>\<open>UpdateCells\<close> makes of it and of the
  two-cell game.
\<close>

definition mesh_one :: MeshGame where
  "mesh_one =
     \<lparr>Width = 1, Height = 1, Cellsize = 2, Density = 5, ScreenWidth = 2, ScreenHeight = 2,
      Grids = [\<lparr>Data = [[1]], GridWidth = 1, GridHeight = 1, GridDensity = 5\<rparr>,
               \<lparr>Data = [[0]], GridWidth = 1, GridHeight = 1, GridDensity = 5\<rparr>],
      Index = 0, Elapsed = 5, TPG = 5, Pause = False, Debug = True,
      Black = \<lparr>ColR = 0, ColG = 0, ColB = 0, ColA = 0xff\<rparr>,
      White = \<lparr>ColR = 200, ColG = 200, ColB = 200, ColA = 0xff\<rparr>,
      Grey = \<lparr>ColR = 128, ColG = 128, ColB = 128, ColA = 0xff\<rparr>,
      Vertices = replicate 4 zero_vertex, Indices = replicate 6 0\<rparr>"

definition mesh_one_next :: MeshGame where
  "mesh_one_next =
     \<lparr>Width = 1, Height = 1, Cellsize = 2, Density = 5, ScreenWidth = 2, ScreenHeight = 2,
      Grids = [\<lparr>Data = [[1]], GridWidth = 1, GridHeight = 1, GridDensity = 5\<rparr>,
               \<lparr>Data = [[0]], GridWidth = 1, GridHeight = 1, GridDensity = 5\<rparr>],
      Index = 1, Elapsed = 0, TPG = 5, Pause = False, Debug = True,
      Black = \<lparr>ColR = 0, ColG = 0, ColB = 0, ColA = 0xff\<rparr>,
      White = \<lparr>ColR = 200, ColG = 200, ColB = 200, ColA = 0xff\<rparr>,
      Grey = \<lparr>ColR = 128, ColG = 128, ColB = 128, ColA = 0xff\<rparr>,
      Vertices = [\<lparr>DstX = 1, DstY = 1, SrcX = 1, SrcY = 1, ColorR = 0, ColorG = 0, ColorB = 0, ColorA = 1\<rparr>,
                  \<lparr>DstX = 1, DstY = 2, SrcX = 1, SrcY = 1, ColorR = 0, ColorG = 0, ColorB = 0, ColorA = 1\<rparr>,
                  \<lparr>DstX = 2, DstY = 1, SrcX = 1, SrcY = 1, ColorR = 0, ColorG = 0, ColorB = 0, ColorA = 1\<rparr>,
                  \<lparr>DstX = 2, DstY = 2, SrcX = 1, SrcY = 1, ColorR = 0, ColorG = 0, ColorB = 0, ColorA = 1\<rparr>],
      Indices = [0, 1, 3, 0, 2, 3]\<rparr>"




section \<open>Loops and slices\<close>

lemma for_loop_done: "n \<le> i \<Longrightarrow> for_loop i n body s = Some s"
  by (simp add: for_loop.simps)

lemma for_loop_step:
  "i < n \<Longrightarrow> for_loop i n body s = Option.bind (body i s) (for_loop (i + 1) n body)"
  by (subst for_loop.simps) (simp split: option.split)

lemma for_loop_rule:
  assumes "Inv i s" and "i \<le> n"
    and "\<And>k t. i \<le> k \<Longrightarrow> k < n \<Longrightarrow> Inv k t \<Longrightarrow> \<exists>t'. body k t = Some t' \<and> Inv (k + 1) t'"
  shows "\<exists>t. for_loop i n body s = Some t \<and> Inv n t"
  using assms
proof (induction "nat (n - i)" arbitrary: i s)
  case 0
  then have "i = n" by simp
  with 0 show ?case by (simp add: for_loop_done)
next
  case (Suc m)
  then have lt: "i < n" by linarith
  from Suc.prems(3)[OF _ lt Suc.prems(1)] obtain t' where t': "body i s = Some t'" "Inv (i + 1) t'"
    by auto
  have "\<exists>t. for_loop (i + 1) n body t' = Some t \<and> Inv n t"
  proof (rule Suc.hyps(1))
    show "m = nat (n - (i + 1))" using Suc.hyps(2) by linarith
    show "Inv (i + 1) t'" by (rule t')
    show "i + 1 \<le> n" using lt by simp
    show "\<And>k t. i + 1 \<le> k \<Longrightarrow> k < n \<Longrightarrow> Inv k t \<Longrightarrow> \<exists>t'. body k t = Some t' \<and> Inv (k + 1) t'"
      using Suc.prems(3) by simp
  qed
  then show ?case by (simp add: for_loop_step[OF lt] t')
qed

lemma for_loop_last:
  "i \<le> n \<Longrightarrow> for_loop i (n + 1) body s = Option.bind (for_loop i n body s) (body n)"
proof (induction "nat (n - i)" arbitrary: i s)
  case 0
  then have "i = n" by simp
  then show ?case by (cases "body n s") (simp_all add: for_loop_done for_loop_step)
next
  case (Suc m)
  then have lt: "i < n" by linarith
  have ih: "\<And>t. for_loop (i + 1) (n + 1) body t = Option.bind (for_loop (i + 1) n body t) (body n)"
    by (rule Suc.hyps(1)) (use Suc.hyps(2) lt in linarith)+
  show ?case using lt by (cases "body i s") (simp_all add: for_loop_step ih)
qed

lemma for_loop_3:
  "for_loop (- 1) 2 body s = Option.bind (Option.bind (body (- 1) s) (body 0)) (body 1)"
proof -
  have d: "for_loop 2 2 body = Some"
    by (rule ext) (simp add: for_loop_done)
  have "for_loop 1 2 body = body 1"
    by (rule ext) (simp add: for_loop_step d)
  then have "for_loop 0 2 body = (\<lambda>t. Option.bind (body 0 t) (body 1))"
    by (intro ext) (simp add: for_loop_step)
  then have "for_loop (- 1) 2 body s = Option.bind (body (- 1) s) (\<lambda>t. Option.bind (body 0 t) (body 1))"
    by (simp add: for_loop_step)
  then show ?thesis by (cases "body (- 1) s") simp_all
qed

lemma at_Some: "0 \<le> i \<Longrightarrow> i < int (length xs) \<Longrightarrow> at xs i = Some (xs ! nat i)"
  by (simp add: at_def)

lemma put_Some: "0 \<le> i \<Longrightarrow> i < int (length xs) \<Longrightarrow> put xs i v = Some (xs[nat i := v])"
  by (simp add: put_def)

lemma go_rem_mod: "0 \<le> a \<Longrightarrow> 0 < b \<Longrightarrow> go_rem a b = Some (a mod b)"
  by (simp add: go_rem_def sgn_if)

lemma go_quo_div: "0 \<le> a \<Longrightarrow> 0 < b \<Longrightarrow> go_quo a b = Some (a div b)"
  by (simp add: go_quo_def sgn_if)

lemma grids_ok_grid:
  assumes "grids_ok game" "i = 0 \<or> i = 1"
  shows "nat i < length (Grids game)"
    and "length (Data (Grids game ! nat i)) = nat (Height game)"
    and "row < nat (Height game) \<Longrightarrow> length (Data (Grids game ! nat i) ! row) = nat (Width game)"
proof -
  show lt: "nat i < length (Grids game)" using assms by (auto simp: grids_ok_def)
  then have mem: "Grids game ! nat i \<in> set (Grids game)" by simp
  with assms(1) show len: "length (Data (Grids game ! nat i)) = nat (Height game)"
    by (simp add: grids_ok_def)
  assume "row < nat (Height game)"
  with len have "Data (Grids game ! nat i) ! row \<in> set (Data (Grids game ! nat i))" by simp
  with assms(1) mem show "length (Data (Grids game ! nat i) ! row) = nat (Width game)"
    by (simp add: grids_ok_def)
qed

lemma cell_Some:
  assumes "grids_ok game" "i = 0 \<or> i = 1" "0 \<le> row" "row < Height game" "0 \<le> col" "col < Width game"
  shows "cell game i row col = Some (Data (Grids game ! nat i) ! nat row ! nat col)"
proof -
  have r: "nat row < nat (Height game)" using assms by simp
  have i0: "0 \<le> i" "i < int (length (Grids game))" using assms(1,2) by (auto simp: grids_ok_def)
  show ?thesis
    using assms(3-6) i0 grids_ok_grid(2)[OF assms(1,2)] grids_ok_grid(3)[OF assms(1,2) r]
    by (simp add: cell_def at_Some)
qed

lemma cell_active:
  assumes "grids_ok game" "0 < Width game" "0 < Height game"
  shows "cell game (Index game) (y mod Height game) (x mod Width game) = Some (wrapped game x y)"
  using assms cell_Some[of game "Index game" "y mod Height game" "x mod Width game"]
  by (simp add: wrapped_def active_def grids_ok_def)

lemma wrap_step:
  assumes "grids_ok game" "0 \<le> x" "x < Width game" "0 \<le> y" "y < Height game"
    "- 1 \<le> dx" "- 1 \<le> dy"
  shows "(do { col \<leftarrow> go_rem (x + dx + Width game) (Width game);
              row \<leftarrow> go_rem (y + dy + Height game) (Height game);
              v \<leftarrow> cell game (Index game) row col;
              Some (s + v) }) = Some (s + wrapped game (x + dx) (y + dy))"
proof -
  have W: "0 < Width game" and H: "0 < Height game" using assms by auto
  have "go_rem (x + dx + Width game) (Width game) = Some ((x + dx) mod Width game)"
    using assms W by (simp add: go_rem_mod)
  moreover have "go_rem (y + dy + Height game) (Height game) = Some ((y + dy) mod Height game)"
    using assms H by (simp add: go_rem_mod)
  ultimately show ?thesis using cell_active[OF assms(1) W H] by simp
qed

lemma CountNeighbors_wrapped:
  assumes "grids_ok game" "0 \<le> x" "x < Width game" "0 \<le> y" "y < Height game"
  shows "CountNeighbors game x y =
           Some (wrapped game (x - 1) (y - 1) + wrapped game (x - 1) y + wrapped game (x - 1) (y + 1)
               + wrapped game x (y - 1) + wrapped game x (y + 1)
               + wrapped game (x + 1) (y - 1) + wrapped game (x + 1) y + wrapped game (x + 1) (y + 1))
       \<and> CountNeighbors game x y =
           Some (wrapped game (x - 1) (y - 1) + wrapped game (x - 1) y + wrapped game (x - 1) (y + 1)
               + wrapped game x (y - 1) + wrapped game x y + wrapped game x (y + 1)
               + wrapped game (x + 1) (y - 1) + wrapped game (x + 1) y + wrapped game (x + 1) (y + 1)
               - active game ! nat y ! nat x)
       \<and> wrapped game x y = active game ! nat y ! nat x
       \<and> wrapped game (0 - 1) (0 - 1) = active game ! nat (Height game - 1) ! nat (Width game - 1)
       \<and> wrapped game (Width game - 1 + 1) (0 - 1) = active game ! nat (Height game - 1) ! 0
       \<and> wrapped game (0 - 1) (Height game - 1 + 1) = active game ! 0 ! nat (Width game - 1)
       \<and> wrapped game (Width game - 1 + 1) (Height game - 1 + 1) = active game ! 0 ! 0"
proof -
  have W: "0 < Width game" and H: "0 < Height game" using assms by auto
  have self: "cell game (Index game) y x = Some (wrapped game x y)"
    using cell_active[OF assms(1) W H, of y x] assms by simp
  define body where "body = (\<lambda>nbgX nbgY sum. do {
              col \<leftarrow> go_rem (x + nbgX + Width game) (Width game);
              row \<leftarrow> go_rem (y + nbgY + Height game) (Height game);
              v \<leftarrow> cell game (Index game) row col;
              Some (sum + v) })"
  have body: "body dx dy s = Some (s + wrapped game (x + dx) (y + dy))"
    if "- 1 \<le> dx" "- 1 \<le> dy" for dx dy s
    unfolding body_def using wrap_step[OF assms that] .
  have inner: "for_loop (- 1) 2 (body dx) s =
      Some (s + wrapped game (x + dx) (y - 1) + wrapped game (x + dx) y + wrapped game (x + dx) (y + 1))"
    if "- 1 \<le> dx" for dx s
    unfolding for_loop_3 using that by (simp add: body)
  have "for_loop (- 1) 2 (\<lambda>nbgX. for_loop (- 1) 2 (body nbgX)) 0
      = Some (wrapped game (x - 1) (y - 1) + wrapped game (x - 1) y + wrapped game (x - 1) (y + 1)
               + wrapped game x (y - 1) + wrapped game x y + wrapped game x (y + 1)
               + wrapped game (x + 1) (y - 1) + wrapped game (x + 1) y + wrapped game (x + 1) (y + 1))"
    unfolding for_loop_3 by (simp add: body)
  then have loop: "for_loop (- 1) 2 (\<lambda>nbgX. for_loop (- 1) 2 (\<lambda>nbgY sum. do {
              col \<leftarrow> go_rem (x + nbgX + Width game) (Width game);
              row \<leftarrow> go_rem (y + nbgY + Height game) (Height game);
              v \<leftarrow> cell game (Index game) row col;
              Some (sum + v) })) 0
      = Some (wrapped game (x - 1) (y - 1) + wrapped game (x - 1) y + wrapped game (x - 1) (y + 1)
               + wrapped game x (y - 1) + wrapped game x y + wrapped game x (y + 1)
               + wrapped game (x + 1) (y - 1) + wrapped game (x + 1) y + wrapped game (x + 1) (y + 1))"
    unfolding body_def .
  have c1: "wrapped game x y = active game ! nat y ! nat x"
    using assms by (simp add: wrapped_def)
  show ?thesis
    unfolding CountNeighbors_def loop self
    using c1 W H by (simp add: wrapped_def zmod_minus1)
qed

section \<open>One generation\<close>

lemma with_data_fields [simp]:
  "Width (with_data g n d) = Width g" "Height (with_data g n d) = Height g"
  "Index (with_data g n d) = Index g" "Elapsed (with_data g n d) = Elapsed g"
  "TPG (with_data g n d) = TPG g" "Pause (with_data g n d) = Pause g"
  "Debug (with_data g n d) = Debug g" "Cellsize (with_data g n d) = Cellsize g"
  "ScreenWidth (with_data g n d) = ScreenWidth g" "ScreenHeight (with_data g n d) = ScreenHeight g"
  "Density (with_data g n d) = Density g" "Game.more (with_data g n d) = Game.more g"
  "length (Grids (with_data g n d)) = length (Grids g)"
  by (simp_all add: with_data_def)

lemma with_data_other: "m \<noteq> n \<Longrightarrow> Grids (with_data g n d) ! m = Grids g ! m"
  by (simp add: with_data_def)

lemma with_data_same: "n < length (Grids g) \<Longrightarrow> Data (Grids (with_data g n d) ! n) = d"
  by (simp add: with_data_def)

lemma with_data_twice: "with_data (with_data g n d) n d' = with_data g n d'"
  by (cases "n < length (Grids g)") (simp_all add: with_data_def list_update_beyond)

lemma with_data_id: "n < length (Grids g) \<Longrightarrow> with_data g n (Data (Grids g ! n)) = g"
  by (simp add: with_data_def)

lemma cell_with_data:
  "0 \<le> i \<Longrightarrow> nat i \<noteq> n \<Longrightarrow> cell (with_data g n d) i row col = cell g i row col"
  by (simp add: cell_def at_def with_data_def)

lemma CountNeighbors_with_data:
  "0 \<le> Index g \<Longrightarrow> nat (Index g) \<noteq> n \<Longrightarrow> CountNeighbors (with_data g n d) x y = CountNeighbors g x y"
  by (simp add: CountNeighbors_def cell_with_data)

lemma set_cell_Some:
  assumes "0 \<le> i" "nat i < length (Grids g)"
    "0 \<le> row" "nat row < length (Data (Grids g ! nat i))"
    "0 \<le> col" "nat col < length (Data (Grids g ! nat i) ! nat row)"
  shows "set_cell g i row col v =
     Some (with_data g (nat i) ((Data (Grids g ! nat i))[nat row := (Data (Grids g ! nat i) ! nat row)[nat col := v]]))"
proof -
  have "i < int (length (Grids g))" "row < int (length (Data (Grids g ! nat i)))"
    "col < int (length (Data (Grids g ! nat i) ! nat row))"
    using assms by linarith+
  then show ?thesis using assms(1,3,5) by (simp add: set_cell_def at_def put_def with_data_def)
qed

lemma grids_ok_next:
  assumes "grids_ok g"
  shows "0 \<le> Index g XOR 1" "Index g XOR 1 = 0 \<or> Index g XOR 1 = 1"
    "nat (Index g) \<noteq> nat (Index g XOR 1)" "0 \<le> Index g"
    "nat (Index g XOR 1) < length (Grids g)" "nat (Index g) < length (Grids g)"
  using assms by (auto simp: grids_ok_def)

lemma CountNeighbors_Some:
  assumes "grids_ok g" "0 \<le> x" "x < Width g" "0 \<le> y" "y < Height g"
  shows "CountNeighbors g x y = Some (the (CountNeighbors g x y))"
  using CountNeighbors_wrapped[OF assms] by simp

lemma next_cell_step:
  assumes ok: "grids_ok g" and nx: "next = Index g XOR 1"
    and t: "t = with_data g (nat next) d"
    and d: "length d = nat (Height g)" "\<forall>r<nat (Height g). length (d ! r) = nat (Width g)"
    and xy: "0 \<le> y" "y < Height g" "0 \<le> x" "x < Width g"
  shows "(do { state \<leftarrow> cell t (Index t) y x;
              neighbors \<leftarrow> CountNeighbors t x y;
              set_cell t next y x (CheckRule state neighbors) })
         = Some (with_data g (nat next) (d[nat y := (d ! nat y)[nat x := stepped g x y]]))"
proof -
  note nf = grids_ok_next[OF ok]
  have c: "cell t (Index t) y x = Some (active g ! nat y ! nat x)"
    using cell_Some[of g "Index g" y x] ok xy nf
    by (simp add: t nx cell_with_data active_def grids_ok_def)
  have n: "CountNeighbors t x y = Some (the (CountNeighbors g x y))"
    using CountNeighbors_Some[OF ok xy(3,4,1,2)] nf
    by (simp add: t nx CountNeighbors_with_data)
  have dt: "Data (Grids t ! nat next) = d"
    using nf by (simp add: t nx with_data_same)
  have "nat y < length d" "nat x < length (d ! nat y)"
    using d xy by auto
  then have s: "set_cell t next y x v = Some (with_data g (nat next) (d[nat y := (d ! nat y)[nat x := v]]))" for v
    using set_cell_Some[of "next" t y x v] nf xy dt
    by (simp add: nx[symmetric]) (simp add: t with_data_twice)
  show ?thesis by (simp add: c n s stepped_def)
qed

lemma partial_data_row: "partial_data g y (Width g) d \<Longrightarrow> partial_data g (y + 1) 0 d"
  unfolding partial_data_def by (auto split: if_splits) 

lemma partial_data_step:
  assumes "partial_data g y k d" "0 \<le> y" "y < Height g" "0 \<le> k" "k < Width g"
  shows "partial_data g y (k + 1) (d[nat y := (d ! nat y)[nat k := stepped g k y]])"
  using assms unfolding partial_data_def
  by (auto simp: nth_list_update)

lemma next_generation_row:
  assumes ok: "grids_ok g" and nx: "next = Index g XOR 1"
    and y: "0 \<le> y" "y < Height g" and pd: "partial_data g y 0 d"
  shows "\<exists>d'. for_loop 0 (Width g) (\<lambda>x game. do {
              state \<leftarrow> cell game (Index game) y x;
              neighbors \<leftarrow> CountNeighbors game x y;
              set_cell game next y x (CheckRule state neighbors) }) (with_data g (nat next) d)
            = Some (with_data g (nat next) d') \<and> partial_data g (y + 1) 0 d'"
proof -
  have W: "0 \<le> Width g" using ok by (simp add: grids_ok_def)
  have "\<exists>t. for_loop 0 (Width g) (\<lambda>x game. do {
              state \<leftarrow> cell game (Index game) y x;
              neighbors \<leftarrow> CountNeighbors game x y;
              set_cell game next y x (CheckRule state neighbors) }) (with_data g (nat next) d) = Some t
          \<and> (\<exists>d'. t = with_data g (nat next) d' \<and> partial_data g y (Width g) d')"
  proof (rule for_loop_rule[where Inv = "\<lambda>k t. \<exists>d'. t = with_data g (nat next) d' \<and> partial_data g y k d'"])
    show "\<exists>d'. with_data g (nat next) d = with_data g (nat next) d' \<and> partial_data g y 0 d'"
      using pd by blast
    show "0 \<le> Width g" by (rule W)
  next
    fix k t
    assume k: "0 \<le> k" "k < Width g" and "\<exists>d'. t = with_data g (nat next) d' \<and> partial_data g y k d'"
    then obtain d' where t: "t = with_data g (nat next) d'" and p: "partial_data g y k d'" by blast
    from p have len: "length d' = nat (Height g)" "\<forall>r<nat (Height g). length (d' ! r) = nat (Width g)"
      by (simp_all add: partial_data_def)
    show "\<exists>t'. (do { state \<leftarrow> cell t (Index t) y k;
              neighbors \<leftarrow> CountNeighbors t k y;
              set_cell t next y k (CheckRule state neighbors) }) = Some t'
            \<and> (\<exists>d'. t' = with_data g (nat next) d' \<and> partial_data g y (k + 1) d')"
      using next_cell_step[OF ok nx t len y k] partial_data_step[OF p y k] by blast
  qed
  then show ?thesis using partial_data_row by blast
qed

lemma next_generation_Some:
  assumes ok: "grids_ok g"
  shows "\<exists>d. next_generation g (Index g XOR 1) = Some (with_data g (nat (Index g XOR 1)) d)
            \<and> partial_data g (Height g) 0 d"
proof -
  define nxt where "nxt = Index g XOR 1"
  note nf = grids_ok_next[OF ok]
  have H: "0 \<le> Height g" using ok by (simp add: grids_ok_def)
  let ?d0 = "Data (Grids g ! nat nxt)"
  have g0: "with_data g (nat nxt) ?d0 = g"
    using nf by (simp add: nxt_def with_data_id)
  have p0: "partial_data g 0 0 ?d0"
    using grids_ok_grid(2,3)[OF ok nf(2)] by (simp add: partial_data_def nxt_def)
  have "\<exists>t. for_loop 0 (Height g) (\<lambda>y. for_loop 0 (Width g) (\<lambda>x game. do {
              state \<leftarrow> cell game (Index game) y x;
              neighbors \<leftarrow> CountNeighbors game x y;
              set_cell game nxt y x (CheckRule state neighbors) })) (with_data g (nat nxt) ?d0) = Some t
          \<and> (\<exists>d. t = with_data g (nat nxt) d \<and> partial_data g (Height g) 0 d)"
  proof (rule for_loop_rule[where Inv = "\<lambda>y t. \<exists>d. t = with_data g (nat nxt) d \<and> partial_data g y 0 d"])
    show "\<exists>d. with_data g (nat nxt) ?d0 = with_data g (nat nxt) d \<and> partial_data g 0 0 d"
      using p0 by blast
    show "0 \<le> Height g" by (rule H)
  next
    fix y t
    assume y: "0 \<le> y" "y < Height g" and "\<exists>d. t = with_data g (nat nxt) d \<and> partial_data g y 0 d"
    then obtain d where t: "t = with_data g (nat nxt) d" and p: "partial_data g y 0 d" by blast
    show "\<exists>t'. for_loop 0 (Width g) (\<lambda>x game. do {
              state \<leftarrow> cell game (Index game) y x;
              neighbors \<leftarrow> CountNeighbors game x y;
              set_cell game nxt y x (CheckRule state neighbors) }) t = Some t'
            \<and> (\<exists>d. t' = with_data g (nat nxt) d \<and> partial_data g (y + 1) 0 d)"
      unfolding t using next_generation_row[OF ok nxt_def y p] by blast
  qed
  then show ?thesis unfolding g0 unfolding next_generation_def nxt_def by blast
qed

section \<open>Clearing the vertices\<close>

lemma ClearVertices_Some:
  "ClearVertices g = Some (g\<lparr>Vertices := replicate (length (Vertices g)) zero_vertex\<rparr>)"
proof -
  let ?n = "length (Vertices g)"
  let ?body = "\<lambda>i game. do {
               vs \<leftarrow> put (Vertices game) i zero_vertex;
               Some (game\<lparr>Vertices := vs\<rparr>) }"
  have "\<exists>t. for_loop 0 (int ?n) ?body g = Some t \<and>
          (\<exists>vs. t = g\<lparr>Vertices := vs\<rparr> \<and> length vs = ?n \<and> (\<forall>i<nat (int ?n). vs ! i = zero_vertex))"
  proof (rule for_loop_rule[where Inv = "\<lambda>k t. \<exists>vs. t = g\<lparr>Vertices := vs\<rparr> \<and> length vs = ?n \<and> (\<forall>i<nat k. vs ! i = zero_vertex)"])
    show "\<exists>vs. g = g\<lparr>Vertices := vs\<rparr> \<and> length vs = ?n \<and> (\<forall>i<nat 0. vs ! i = zero_vertex)"
      by (rule exI[of _ "Vertices g"]) simp
    show "0 \<le> int ?n" by simp
  next
    fix k t
    assume k: "0 \<le> k" "k < int ?n"
      and "\<exists>vs. t = g\<lparr>Vertices := vs\<rparr> \<and> length vs = ?n \<and> (\<forall>i<nat k. vs ! i = zero_vertex)"
    then obtain vs where t: "t = g\<lparr>Vertices := vs\<rparr>" and len: "length vs = ?n"
      and z: "\<forall>i<nat k. vs ! i = zero_vertex" by blast
    have "?body k t = Some (g\<lparr>Vertices := vs[nat k := zero_vertex]\<rparr>)"
      using k len by (simp add: t put_def)
    moreover have "\<forall>i<nat (k + 1). vs[nat k := zero_vertex] ! i = zero_vertex"
      using z k len by (auto simp: nth_list_update)
    ultimately show "\<exists>t'. ?body k t = Some t' \<and>
        (\<exists>vs. t' = g\<lparr>Vertices := vs\<rparr> \<and> length vs = ?n \<and> (\<forall>i<nat (k + 1). vs ! i = zero_vertex))"
      using len by auto
  qed
  then obtain vs where l: "for_loop 0 (int ?n) ?body g = Some (g\<lparr>Vertices := vs\<rparr>)"
    and len: "length vs = ?n" and z: "\<forall>i<?n. vs ! i = zero_vertex" by auto
  have "vs = replicate ?n zero_vertex"
    using len z by (intro nth_equalityI) simp_all
  then show ?thesis using l by (simp add: ClearVertices_def)
qed

section \<open>Building the triangles\<close>

lemma for_loop_2: "for_loop 0 2 body s = Option.bind (body 0 s) (body 1)"
proof -
  have d: "for_loop 2 2 body = Some"
    by (rule ext) (simp add: for_loop_done)
  have "for_loop 1 2 body = body 1"
    by (rule ext) (simp add: for_loop_step d)
  then show ?thesis by (simp add: for_loop_step)
qed

lemma corner_quad_vertex: "corner t x y i j v = quad_vertex t x y i j"
  by (cases v) (simp add: quad_vertex_def corner_def zero_vertex_def Let_def)

lemma quad_vertex_upd [simp]:
  "quad_vertex (t\<lparr>Vertices := vs\<rparr>) = quad_vertex t"
  "quad_vertex (t\<lparr>Indices := ixs\<rparr>) = quad_vertex t"
  by (simp_all add: quad_vertex_def corner_def fun_eq_iff)

lemma set_vertex_Some:
  "0 \<le> idx \<Longrightarrow> idx < int (length (Vertices t)) \<Longrightarrow>
   set_vertex t idx f = Some (t\<lparr>Vertices := (Vertices t)[nat idx := f (Vertices t ! nat idx)]\<rparr>)"
  by (simp add: set_vertex_def at_def put_def)

lemma fill_corners_Some:
  assumes "0 \<le> idx" "idx + 4 \<le> int (length (Vertices t))"
  shows "fill_corners t x y idx =
     Some (t\<lparr>Vertices := (Vertices t)[nat idx := quad_vertex t x y 0 0,
                                      nat idx + 1 := quad_vertex t x y 0 1,
                                      nat idx + 2 := quad_vertex t x y 1 0,
                                      nat idx + 3 := quad_vertex t x y 1 1]\<rparr>, idx + 4)"
proof -
  have n: "nat (1 + idx) = nat idx + 1" "nat (2 + idx) = nat idx + 2" "nat (3 + idx) = nat idx + 3"
    "nat (idx + 1) = nat idx + 1"
    using assms by simp_all
  show ?thesis
    unfolding fill_corners_def for_loop_2 using assms
    by (simp add: set_vertex_Some corner_quad_vertex n)
qed

lemma set_index_Some:
  assumes "unat index < length (Indices t)"
  shows "set_index t index v = Some (t\<lparr>Indices := (Indices t)[unat index := v]\<rparr>)"
proof -
  have "int (unat index) < int (length (Indices t))"
    using assms by (simp only: of_nat_less_iff)
  then have a: "uint index < int (length (Indices t))" by simp
  have b: "nat (uint index) = unat index" by simp
  show ?thesis using a by (simp add: set_index_def put_def b)
qed

lemma write_quad_Some:
  assumes "unat index < length (Indices t)" "unat (index + 1) < length (Indices t)"
    "unat (index + 2) < length (Indices t)" "unat (index + 3) < length (Indices t)"
    "unat (index + 4) < length (Indices t)" "unat (index + 5) < length (Indices t)"
  shows "write_quad t index base =
     Some (t\<lparr>Indices := (Indices t)[unat index := base, unat (index + 1) := base + 1,
              unat (index + 2) := base + 3, unat (index + 3) := base,
              unat (index + 4) := base + 2, unat (index + 5) := base + 3]\<rparr>)"
  using assms by (simp add: write_quad_def set_index_Some)

lemma quad_position:
  fixes L :: nat
  assumes "q < n" "65536 \<le> L \<or> (6 * n \<le> L \<and> 6 * n \<le> 65536)" "j \<le> 5"
  shows "unat ((word_of_nat (6 * q) :: uint16) + word_of_nat j) < L"
proof (cases "65536 \<le> L")
  case True
  have "unat ((word_of_nat (6 * q) :: uint16) + word_of_nat j) < 2 ^ 16"
    using unsigned_less[of "(word_of_nat (6 * q) :: uint16) + word_of_nat j"] by simp
  with True show ?thesis by simp
next
  case False
  with assms have b: "6 * n \<le> L" "6 * n \<le> 65536" by auto
  have lt: "6 * q + j < 6 * n" using assms(1,3) by linarith
  have e: "(word_of_nat (6 * q) :: uint16) + word_of_nat j = word_of_nat (6 * q + j)"
    by simp
  have "unat (word_of_nat (6 * q + j) :: uint16) = (6 * q + j) mod 2 ^ 16"
    by (simp only: unat_of_nat len_num0 len_num1 len_bit0 len_bit1) simp
  also have "\<dots> = 6 * q + j"
    using lt b by simp
  finally have "unat ((word_of_nat (6 * q) :: uint16) + word_of_nat j) = 6 * q + j"
    unfolding e .
  then show ?thesis using lt b by linarith
qed

lemma alive_before_Suc:
  "alive_before g (Suc q) =
     alive_before g q @ (if active g ! (q div nat (Width g)) ! (q mod nat (Width g)) = 1 then [q] else [])"
  by (simp add: alive_before_def)

lemma quads_before_Suc:
  "quads_before g (Suc q) =
     quads_before g q @
       (if active g ! (q div nat (Width g)) ! (q mod nat (Width g)) = 1
        then cell_quad g (int (q mod nat (Width g))) (int (q div nat (Width g))) else [])"
  by (simp add: quads_before_def alive_before_Suc)

lemma length_quads_before: "length (quads_before g q) = 4 * length (alive_before g q)"
  by (induction q) (simp_all add: quads_before_Suc alive_before_Suc, simp_all add: quads_before_def alive_before_def cell_quad_def)

lemma length_alive_before: "length (alive_before g q) \<le> q"
  using length_filter_le[of _ "[0..<q]"] by (simp add: alive_before_def)

lemma indices_after_Suc: "indices_after ixs (Suc n) = put_quad (indices_after ixs n) n"
  by (simp add: indices_after_def)

lemma length_put_quad [simp]: "length (put_quad ixs q) = length ixs"
  by (simp add: put_quad_def Let_def)

lemma length_indices_after [simp]: "length (indices_after ixs n) = length ixs"
  by (induction n) (simp_all add: indices_after_Suc, simp add: indices_after_def)

lemma append_quad:
  assumes "length qs + 4 \<le> length vs"
  shows "(qs @ drop (length qs) vs)[length qs := a, length qs + 1 := b, length qs + 2 := c, length qs + 3 := d]
         = (qs @ [a, b, c, d]) @ drop (length qs + 4) vs"
proof -
  obtain r where r: "drop (length qs) vs = r" by simp
  have lr: "4 \<le> length r" using assms r by auto
  then obtain e f g h r' where "r = e # f # g # h # r'"
    by (cases r; cases "tl r"; cases "tl (tl r)"; cases "tl (tl (tl r))") auto
  moreover have "drop (length qs + 4) vs = drop 4 r"
    unfolding r[symmetric] by (simp add: add.commute)
  ultimately show ?thesis unfolding r by (simp add: list_update_append)
qed

lemma cell_mesh_upd [simp]:
  "cell (g\<lparr>Vertices := vs\<rparr>) = cell g" "cell (g\<lparr>Indices := ixs\<rparr>) = cell g"
  by (simp_all add: cell_def fun_eq_iff)

lemma position_div_mod:
  assumes "0 \<le> y" "0 \<le> x" "x < W"
  shows "nat (y * W + x) div nat W = nat y" "nat (y * W + x) mod nat W = nat x"
proof -
  have W: "0 < W" using assms by linarith
  have e: "nat (y * W + x) = nat y * nat W + nat x"
    using assms W by (simp add: nat_add_distrib nat_mult_distrib)
  have lt: "nat x < nat W" using assms by simp
  show "nat (y * W + x) div nat W = nat y" unfolding e using lt by simp
  show "nat (y * W + x) mod nat W = nat x" unfolding e using lt by simp
qed

lemma position_less:
  assumes "0 \<le> y" "y < H" "0 \<le> x" "x < W"
  shows "nat (y * W + x) < nat (W * H)"
proof -
  have "y * W + x < (y + 1) * W" using assms by (simp add: algebra_simps)
  also have "\<dots> \<le> H * W" using assms by (intro mult_right_mono) auto
  finally show ?thesis using assms by (simp add: mult.commute)
qed

lemma tri_cell_step:
  assumes ok: "grids_ok g" and bok: "buffers_ok g"
    and xy: "0 \<le> y" "y < Height g" "0 \<le> x" "x < Width g"
  shows "tri_cell y x (tri_at g (nat (y * Width g + x))) = Some (tri_at g (Suc (nat (y * Width g + x))))"
proof -
  define q where "q = nat (y * Width g + x)"
  define n where "n = nat (Width g * Height g)"
  define qs where "qs = quads_before g q"
  define a where "a = active g ! nat y ! nat x"
  have qn: "q < n" unfolding q_def n_def using position_less[OF xy] .
  have dm: "q div nat (Width g) = nat y" "q mod nat (Width g) = nat x"
    unfolding q_def using position_div_mod[OF xy(1,3,4)] by simp_all
  have c: "cell g (Index g) y x = Some a"
    using cell_Some[of g "Index g" y x] ok xy by (simp add: a_def active_def grids_ok_def)
  have n4: "4 * n \<le> length (Vertices g)"
    using bok by (simp add: buffers_ok_def n_def) linarith
  have lq: "length qs \<le> 4 * q"
    unfolding qs_def length_quads_before using length_alive_before[of g q] by simp
  have room: "length qs + 4 \<le> length (Vertices g)" using lq qn n4 by linarith
  have nL: "65536 \<le> length (Indices g) \<or> (6 * n \<le> length (Indices g) \<and> 6 * n \<le> 65536)"
    using bok by (auto simp: buffers_ok_def n_def)
  have pos: "unat ((word_of_nat (6 * q) :: uint16) + word_of_nat j) < length (Indices g)" if "j \<le> 5" for j
    using quad_position[OF qn nL that] .
  have p: "unat (word_of_nat (6 * q) :: uint16) < length (indices_after (Indices g) q)"
    "unat ((word_of_nat (6 * q) :: uint16) + 1) < length (indices_after (Indices g) q)"
    "unat ((word_of_nat (6 * q) :: uint16) + 2) < length (indices_after (Indices g) q)"
    "unat ((word_of_nat (6 * q) :: uint16) + 3) < length (indices_after (Indices g) q)"
    "unat ((word_of_nat (6 * q) :: uint16) + 4) < length (indices_after (Indices g) q)"
    "unat ((word_of_nat (6 * q) :: uint16) + 5) < length (indices_after (Indices g) q)"
    using pos[of 0] pos[of 1] pos[of 2] pos[of 3] pos[of 4] pos[of 5] by simp_all
  define t where "t = g\<lparr>Vertices := qs @ drop (length qs) (Vertices g),
        Indices := indices_after (Indices g) q\<rparr>"
  have tI: "Indices t = indices_after (Indices g) q" by (simp add: t_def)
  have ct: "cell t (Index t) y x = Some a" using c by (simp add: t_def)
  have wq: "write_quad u (word_of_nat (6 * q)) (word_of_nat (4 * q)) =
      Some (u\<lparr>Indices := indices_after (Indices g) (Suc q)\<rparr>)"
    if "Indices u = indices_after (Indices g) q" for u
    using write_quad_Some[of "word_of_nat (6 * q)" u "word_of_nat (4 * q)"] p
    unfolding that by (simp add: indices_after_Suc put_quad_def Let_def)
  have cur: "(word_of_nat (4 * q) :: uint16) + 4 = word_of_nat (4 * Suc q)"
    "(word_of_nat (6 * q) :: uint16) + 6 = word_of_nat (6 * Suc q)"
    by simp_all
  have lenV: "length (Vertices t) = length (Vertices g)"
    using room by (simp add: t_def)
  have "Suc (Suc (Suc (Suc (length qs)))) = length qs + 4" by simp
  then have s4: "drop (Suc (Suc (Suc (Suc (length qs))))) (Vertices g) = drop (length qs + 4) (Vertices g)"
    by (simp only:)
  show ?thesis
  proof (cases "a = 1")
    case False
    have qsS: "quads_before g (Suc q) = qs"
      using False by (simp add: quads_before_Suc dm a_def qs_def)
    have "tri_cell y x (t, word_of_nat (4 * q), word_of_nat (6 * q), int (length qs))
        = Some (t\<lparr>Indices := indices_after (Indices g) (Suc q)\<rparr>,
                word_of_nat (4 * Suc q), word_of_nat (6 * Suc q), int (length qs))"
      using False ct by (simp add: tri_cell_def wq tI cur del: of_nat_mult of_nat_Suc mult_Suc_right)
    then show ?thesis
      unfolding tri_at_def q_def[symmetric] qs_def[symmetric] qsS t_def by simp
  next
    case True
    have qsS: "quads_before g (Suc q) = qs @ cell_quad g x y"
      using True xy by (simp add: quads_before_Suc dm a_def qs_def)
    have fc: "fill_corners t x y (int (length qs)) =
      Some (t\<lparr>Vertices := (qs @ cell_quad g x y) @ drop (length qs + 4) (Vertices g)\<rparr>, int (length qs) + 4)"
      using fill_corners_Some[of "int (length qs)" t x y] room lenV append_quad[OF room]
      by (simp add: t_def cell_quad_def)
    have "tri_cell y x (t, word_of_nat (4 * q), word_of_nat (6 * q), int (length qs))
        = Some (t\<lparr>Vertices := (qs @ cell_quad g x y) @ drop (length qs + 4) (Vertices g),
                   Indices := indices_after (Indices g) (Suc q)\<rparr>,
                word_of_nat (4 * Suc q), word_of_nat (6 * Suc q), int (length qs) + 4)"
      using True ct by (simp add: tri_cell_def fc wq tI cur del: of_nat_mult of_nat_Suc mult_Suc_right)
    then show ?thesis
      unfolding tri_at_def q_def[symmetric] qs_def[symmetric] qsS t_def
      by (simp add: cell_quad_def s4)
  qed
qed

lemma tri_at_0: "tri_at g 0 = (g, 0, 0, 0)"
  by (simp add: tri_at_def quads_before_def alive_before_def indices_after_def)

lemma tri_row:
  assumes ok: "grids_ok g" and bok: "buffers_ok g" and y: "0 \<le> y" "y < Height g"
  shows "for_loop 0 (Width g) (tri_cell y) (tri_at g (nat (y * Width g)))
         = Some (tri_at g (nat ((y + 1) * Width g)))"
proof -
  have W: "0 \<le> Width g" using ok by (simp add: grids_ok_def)
  have "\<exists>s. for_loop 0 (Width g) (tri_cell y) (tri_at g (nat (y * Width g))) = Some s
          \<and> s = tri_at g (nat (y * Width g + Width g))"
  proof (rule for_loop_rule[where Inv = "\<lambda>k s. s = tri_at g (nat (y * Width g + k))"])
    show "tri_at g (nat (y * Width g)) = tri_at g (nat (y * Width g + 0))" by simp
    show "0 \<le> Width g" by (rule W)
  next
    fix k s
    assume k: "0 \<le> k" "k < Width g" and s: "s = tri_at g (nat (y * Width g + k))"
    have "0 \<le> y * Width g + k" using y k W by simp
    then have "Suc (nat (y * Width g + k)) = nat (y * Width g + (k + 1))" by simp
    then show "\<exists>s'. tri_cell y k s = Some s' \<and> s' = tri_at g (nat (y * Width g + (k + 1)))"
      unfolding s using tri_cell_step[OF ok bok y k] by simp
  qed
  then have "for_loop 0 (Width g) (tri_cell y) (tri_at g (nat (y * Width g)))
      = Some (tri_at g (nat (y * Width g + Width g)))" by blast
  moreover have "(y + 1) * Width g = y * Width g + Width g" by (simp add: algebra_simps)
  ultimately show ?thesis by simp
qed

lemma UpdateTriangles_Some:
  assumes ok: "grids_ok g" and bok: "buffers_ok g"
  shows "UpdateTriangles g =
     Some (g\<lparr>Vertices := quads_before g (nat (Width g * Height g))
                           @ drop (length (quads_before g (nat (Width g * Height g)))) (Vertices g),
             Indices := indices_after (Indices g) (nat (Width g * Height g))\<rparr>)"
proof -
  have H: "0 \<le> Height g" using ok by (simp add: grids_ok_def)
  have "\<exists>s. for_loop 0 (Height g) (\<lambda>celly. for_loop 0 (Width g) (tri_cell celly)) (tri_at g 0) = Some s
          \<and> s = tri_at g (nat (Height g * Width g))"
  proof (rule for_loop_rule[where Inv = "\<lambda>y s. s = tri_at g (nat (y * Width g))"])
    show "tri_at g 0 = tri_at g (nat (0 * Width g))" by simp
    show "0 \<le> Height g" by (rule H)
  next
    fix y s
    assume y: "0 \<le> y" "y < Height g" and s: "s = tri_at g (nat (y * Width g))"
    show "\<exists>s'. for_loop 0 (Width g) (tri_cell y) s = Some s' \<and> s' = tri_at g (nat ((y + 1) * Width g))"
      unfolding s using tri_row[OF ok bok y] by simp
  qed
  then have "for_loop 0 (Height g) (\<lambda>celly. for_loop 0 (Width g) (tri_cell celly)) (g, 0, 0, 0)
      = Some (tri_at g (nat (Width g * Height g)))"
    unfolding tri_at_0 by (simp only: mult.commute) blast
  then show ?thesis
    by (simp add: UpdateTriangles_def) (simp add: tri_at_def)
qed

section \<open>Drawing the pixels\<close>

lemma div_less_cells:
  fixes x :: int
  assumes "0 \<le> x" "x < s" "s \<le> w * c" "0 < c"
  shows "0 \<le> x div c" "x div c < w"
proof -
  show "0 \<le> x div c" using assms by (simp add: pos_imp_zdiv_nonneg_iff)
  have lt: "x < w * c" using assms by linarith
  show "x div c < w"
  proof (rule ccontr)
    assume "\<not> x div c < w"
    then have "w * c \<le> (x div c) * c" using assms(4) by (intro mult_right_mono) auto
    also have "\<dots> = x - x mod c" by (simp add: minus_mod_eq_div_mult)
    also have "\<dots> \<le> x" using assms(4) by simp
    finally show False using lt by simp
  qed
qed

lemma pixel_colour_Some:
  assumes ok: "grids_ok g" and pok: "pixels_ok g"
    and xy: "0 \<le> x" "x < ScreenWidth g" "0 \<le> y" "y < ScreenHeight g"
  shows "pixel_colour g x y = Some (shade g x y)"
proof -
  have c: "0 < Cellsize g" using pok by (simp add: pixels_ok_def)
  have gx: "0 \<le> x div Cellsize g" "x div Cellsize g < Width g"
    using div_less_cells[OF xy(1,2) _ c, of "Width g"] pok by (simp_all add: pixels_ok_def)
  have gy: "0 \<le> y div Cellsize g" "y div Cellsize g < Height g"
    using div_less_cells[OF xy(3,4) _ c, of "Height g"] pok by (simp_all add: pixels_ok_def)
  have cl: "cell g (Index g) (y div Cellsize g) (x div Cellsize g)
      = Some (active g ! nat (y div Cellsize g) ! nat (x div Cellsize g))"
    using cell_Some[of g "Index g" "y div Cellsize g" "x div Cellsize g"] ok gx gy
    by (simp add: active_def grids_ok_def)
  show ?thesis
    using c xy by (simp add: pixel_colour_def go_quo_div go_rem_mod cl shade_def)
qed

lemma pixel_colour_upd [simp]: "pixel_colour (g\<lparr>Pixels := ps\<rparr>) = pixel_colour g"
  by (simp add: pixel_colour_def cell_def fun_eq_iff Let_def cong del: if_weak_cong)

lemma pixels_before_Suc:
  "pixels_before g (Suc q) =
     pixels_before g q @
       (let c = shade g (int (q mod nat (ScreenWidth g))) (int (q div nat (ScreenWidth g)))
        in [c, c, c, 0xff])"
  by (simp add: pixels_before_def)

lemma length_pixels_before [simp]: "length (pixels_before g q) = 4 * q"
  by (induction q) (simp_all add: pixels_before_Suc Let_def, simp add: pixels_before_def)

lemma pixels_before_nth:
  assumes "p < q" "j < 4"
  shows "pixels_before g q ! (4 * p + j) =
     [shade g (int (p mod nat (ScreenWidth g))) (int (p div nat (ScreenWidth g))),
      shade g (int (p mod nat (ScreenWidth g))) (int (p div nat (ScreenWidth g))),
      shade g (int (p mod nat (ScreenWidth g))) (int (p div nat (ScreenWidth g))), 0xff] ! j"
  using assms
proof (induction q)
  case 0
  then show ?case by simp
next
  case (Suc q)
  show ?case
  proof (cases "p < q")
    case True
    then have "4 * p + j < length (pixels_before g q)" using Suc.prems by simp
    then show ?thesis using Suc.IH[OF True Suc.prems(2)]
      by (simp add: pixels_before_Suc nth_append)
  next
    case False
    then have "p = q" using Suc.prems by simp
    then show ?thesis
      by (simp add: pixels_before_Suc nth_append Let_def)
  qed
qed

lemma set_pixel_Some:
  "0 \<le> i \<Longrightarrow> i < int (length (Pixels t)) \<Longrightarrow>
   set_pixel t i v = Some (t\<lparr>Pixels := (Pixels t)[nat i := v]\<rparr>)"
  by (simp add: set_pixel_def put_def)

lemma draw_pixel_step:
  assumes ok: "grids_ok g" and pok: "pixels_ok g"
    and xy: "0 \<le> y" "y < ScreenHeight g" "0 \<le> x" "x < ScreenWidth g"
  shows "draw_pixel y x (pix_at g (nat (y * ScreenWidth g + x)))
         = Some (pix_at g (Suc (nat (y * ScreenWidth g + x))))"
proof -
  define q where "q = nat (y * ScreenWidth g + x)"
  define n where "n = nat (ScreenWidth g * ScreenHeight g)"
  define pb where "pb = pixels_before g q"
  define c where "c = shade g x y"
  have qn: "q < n" unfolding q_def n_def using position_less[OF xy] .
  have dm: "q div nat (ScreenWidth g) = nat y" "q mod nat (ScreenWidth g) = nat x"
    unfolding q_def using position_div_mod[OF xy(1,3,4)] by simp_all
  have n4: "4 * n \<le> length (Pixels g)"
    using pok by (simp add: pixels_ok_def n_def) linarith
  have lpb: "length pb = 4 * q" by (simp add: pb_def)
  have room: "length pb + 4 \<le> length (Pixels g)" using lpb qn n4 by linarith
  have idx: "4 * x + 4 * (y * ScreenWidth g) = int (length pb)"
    using xy by (simp add: lpb q_def algebra_simps)
  have pc: "pixel_colour g x y = Some c"
    unfolding c_def by (rule pixel_colour_Some[OF ok pok xy(3,4,1,2)])
  have next_pb: "pixels_before g (Suc q) = pb @ [c, c, c, 0xff]"
    using xy by (simp add: pixels_before_Suc dm pb_def c_def Let_def)
  have n1: "nat (int (length pb) + 1) = length pb + 1" "nat (int (length pb) + 2) = length pb + 2"
    "nat (int (length pb) + 3) = length pb + 3" by simp_all
  have "draw_pixel y x (g\<lparr>Pixels := pb @ drop (length pb) (Pixels g)\<rparr>)
      = Some (g\<lparr>Pixels := (pb @ drop (length pb) (Pixels g))
                 [length pb := c, length pb + 1 := c, length pb + 2 := c, length pb + 3 := 0xff]\<rparr>)"
    using room by (simp add: draw_pixel_def pc idx set_pixel_Some n1 Let_def del: of_nat_add)
  then show ?thesis
    unfolding pix_at_def q_def[symmetric] pb_def[symmetric] next_pb append_quad[OF room]
    by (simp add: lpb add.commute)
qed

lemma pix_row:
  assumes ok: "grids_ok g" and pok: "pixels_ok g" and y: "0 \<le> y" "y < ScreenHeight g"
  shows "for_loop 0 (ScreenWidth g) (draw_pixel y) (pix_at g (nat (y * ScreenWidth g)))
         = Some (pix_at g (nat ((y + 1) * ScreenWidth g)))"
proof -
  have W: "0 \<le> ScreenWidth g" using pok by (simp add: pixels_ok_def)
  have "\<exists>s. for_loop 0 (ScreenWidth g) (draw_pixel y) (pix_at g (nat (y * ScreenWidth g))) = Some s
          \<and> s = pix_at g (nat (y * ScreenWidth g + ScreenWidth g))"
  proof (rule for_loop_rule[where Inv = "\<lambda>k s. s = pix_at g (nat (y * ScreenWidth g + k))"])
    show "pix_at g (nat (y * ScreenWidth g)) = pix_at g (nat (y * ScreenWidth g + 0))" by simp
    show "0 \<le> ScreenWidth g" by (rule W)
  next
    fix k s
    assume k: "0 \<le> k" "k < ScreenWidth g" and s: "s = pix_at g (nat (y * ScreenWidth g + k))"
    have "0 \<le> y * ScreenWidth g + k" using y k W by simp
    then have "Suc (nat (y * ScreenWidth g + k)) = nat (y * ScreenWidth g + (k + 1))" by simp
    then show "\<exists>s'. draw_pixel y k s = Some s' \<and> s' = pix_at g (nat (y * ScreenWidth g + (k + 1)))"
      unfolding s using draw_pixel_step[OF ok pok y k] by simp
  qed
  then have "for_loop 0 (ScreenWidth g) (draw_pixel y) (pix_at g (nat (y * ScreenWidth g)))
      = Some (pix_at g (nat (y * ScreenWidth g + ScreenWidth g)))" by blast
  moreover have "(y + 1) * ScreenWidth g = y * ScreenWidth g + ScreenWidth g"
    by (simp add: algebra_simps)
  ultimately show ?thesis by simp
qed

lemma UpdatePixels_Some:
  assumes ok: "grids_ok g" and pok: "pixels_ok g"
  shows "UpdatePixels g = Some (pix_at g (nat (ScreenWidth g * ScreenHeight g)))"
proof -
  have H: "0 \<le> ScreenHeight g" using pok by (simp add: pixels_ok_def)
  have p0: "pix_at g 0 = g" by (simp add: pix_at_def pixels_before_def)
  have "\<exists>s. for_loop 0 (ScreenHeight g) (\<lambda>y. for_loop 0 (ScreenWidth g) (draw_pixel y)) (pix_at g 0) = Some s
          \<and> s = pix_at g (nat (ScreenHeight g * ScreenWidth g))"
  proof (rule for_loop_rule[where Inv = "\<lambda>y s. s = pix_at g (nat (y * ScreenWidth g))"])
    show "pix_at g 0 = pix_at g (nat (0 * ScreenWidth g))" by simp
    show "0 \<le> ScreenHeight g" by (rule H)
  next
    fix y s
    assume y: "0 \<le> y" "y < ScreenHeight g" and s: "s = pix_at g (nat (y * ScreenWidth g))"
    show "\<exists>s'. for_loop 0 (ScreenWidth g) (draw_pixel y) s = Some s'
            \<and> s' = pix_at g (nat ((y + 1) * ScreenWidth g))"
      unfolding s using pix_row[OF ok pok y] by simp
  qed
  then show ?thesis
    unfolding p0 UpdatePixels_def by (simp add: mult.commute)
qed

section \<open>The frame update\<close>

lemma grids_ok_with_data:
  assumes "grids_ok g" "length d = nat (Height g)" "\<forall>r<nat (Height g). length (d ! r) = nat (Width g)"
  shows "grids_ok (with_data g n d)"
proof -
  have "\<forall>r \<in> set d. length r = nat (Width g)"
    using assms(2,3) by (auto simp: in_set_conv_nth)
  then show ?thesis
    using assms(1,2) unfolding grids_ok_def with_data_def
    by (auto dest!: set_update_subset_insert[THEN subsetD])
qed

lemma generation_core:
  assumes ok: "grids_ok g"
  shows "\<exists>d. next_generation g (Index g XOR 1) = Some (with_data g (nat (Index g XOR 1)) d)
           \<and> length d = nat (Height g) \<and> (\<forall>r<nat (Height g). length (d ! r) = nat (Width g))
           \<and> (\<forall>x y. 0 \<le> x \<and> x < Width g \<and> 0 \<le> y \<and> y < Height g \<longrightarrow>
                 (\<exists>k. CountNeighbors g x y = Some k
                     \<and> d ! nat y ! nat x = CheckRule (active g ! nat y ! nat x) k))"
proof -
  from next_generation_Some[OF ok] obtain d where
    n: "next_generation g (Index g XOR 1) = Some (with_data g (nat (Index g XOR 1)) d)"
    and p: "partial_data g (Height g) 0 d" by blast
  have "\<exists>k. CountNeighbors g x y = Some k \<and> d ! nat y ! nat x = CheckRule (active g ! nat y ! nat x) k"
    if "0 \<le> x" "x < Width g" "0 \<le> y" "y < Height g" for x y
  proof -
    have "d ! nat y ! nat x = stepped g x y"
      using p that unfolding partial_data_def by (auto dest!: spec[of _ "nat y"] spec[of _ "nat x"])
    then have "d ! nat y ! nat x = CheckRule (active g ! nat y ! nat x) (the (CountNeighbors g x y))"
      by (simp add: stepped_def)
    with CountNeighbors_Some[OF ok that] show ?thesis by blast
  qed
  then show ?thesis using n p unfolding partial_data_def by blast
qed

lemma grids_ok_mesh_upd [simp]:
  "grids_ok (g\<lparr>Vertices := vs\<rparr>) = grids_ok g" "grids_ok (g\<lparr>Indices := ixs\<rparr>) = grids_ok g"
  by (simp_all add: grids_ok_def)

lemma active_mesh_upd [simp]:
  "active (g\<lparr>Vertices := vs\<rparr>) = active g" "active (g\<lparr>Indices := ixs\<rparr>) = active g"
  by (simp_all add: active_def)

lemma CountNeighbors_mesh_upd [simp]:
  "CountNeighbors (g\<lparr>Vertices := vs\<rparr>) = CountNeighbors g"
  by (simp add: CountNeighbors_def fun_eq_iff)

lemma active_with_data: "n \<noteq> nat (Index g) \<Longrightarrow> active (with_data g n d) = active g"
  by (simp add: active_def with_data_other)

lemma with_data_mesh_upd:
  "with_data (g\<lparr>Vertices := vs\<rparr>) n d = (with_data g n d)\<lparr>Vertices := vs\<rparr>"
  by (simp add: with_data_def)

lemma quads_before_cong:
  "Width t = Width g \<Longrightarrow> Cellsize t = Cellsize g \<Longrightarrow> Black t = Black g \<Longrightarrow> active t = active g \<Longrightarrow>
   quads_before t q = quads_before g q"
  by (simp add: quads_before_def alive_before_def cell_quad_def quad_vertex_def corner_def)

lemma UpdateCells_mesh_stages:
  assumes ok: "grids_ok g" and bok: "buffers_ok g"
    and adv: "\<not> Pause g" "sint (TPG g) \<le> sint (Elapsed g)"
  shows "\<exists>d g2 g3.
           g2 = (with_data g (nat (Index g XOR 1)) d)
                  \<lparr>Vertices := replicate (length (Vertices g)) zero_vertex\<rparr>
           \<and> g3 = g2\<lparr>Vertices := quads_before g (nat (Width g * Height g))
                        @ replicate (length (Vertices g) - length (quads_before g (nat (Width g * Height g)))) zero_vertex,
                      Indices := indices_after (Indices g) (nat (Width g * Height g))\<rparr>
           \<and> next_generation (g\<lparr>Vertices := replicate (length (Vertices g)) zero_vertex\<rparr>) (Index g XOR 1)
                 = Some g2
           \<and> UpdateTriangles g2 = Some g3
           \<and> UpdateCells_mesh g = Some (g3\<lparr>Index := Index g XOR 1, Elapsed := 0\<rparr>)
           \<and> length d = nat (Height g) \<and> (\<forall>r<nat (Height g). length (d ! r) = nat (Width g))
           \<and> (\<forall>x y. 0 \<le> x \<and> x < Width g \<and> 0 \<le> y \<and> y < Height g \<longrightarrow>
                 (\<exists>k. CountNeighbors g x y = Some k
                     \<and> d ! nat y ! nat x = CheckRule (active g ! nat y ! nat x) k))"
proof -
  define z where "z = replicate (length (Vertices g)) zero_vertex"
  define n where "n = nat (Index g XOR 1)"
  define N where "N = nat (Width g * Height g)"
  note nf = grids_ok_next[OF ok]
  from generation_core[of "g\<lparr>Vertices := z\<rparr>"] ok obtain d where
    ng: "next_generation (g\<lparr>Vertices := z\<rparr>) (Index g XOR 1) = Some ((with_data g n d)\<lparr>Vertices := z\<rparr>)"
    and d: "length d = nat (Height g)" "\<forall>r<nat (Height g). length (d ! r) = nat (Width g)"
    and rule: "\<forall>x y. 0 \<le> x \<and> x < Width g \<and> 0 \<le> y \<and> y < Height g \<longrightarrow>
                 (\<exists>k. CountNeighbors g x y = Some k
                     \<and> d ! nat y ! nat x = CheckRule (active g ! nat y ! nat x) k)"
    by (auto simp: with_data_mesh_upd n_def)
  define g2 where "g2 = (with_data g n d)\<lparr>Vertices := z\<rparr>"
  have ok2: "grids_ok g2"
    unfolding g2_def using grids_ok_with_data[OF ok d] by simp
  have bok2: "buffers_ok g2"
    using bok by (simp add: buffers_ok_def g2_def z_def with_data_def)
  have act: "active g2 = active g"
    using nf by (simp add: g2_def n_def active_with_data)
  have q: "quads_before g2 N = quads_before g N"
    by (rule quads_before_cong) (simp_all add: act, simp_all add: g2_def with_data_def)
  have lq: "length (quads_before g N) \<le> length (Vertices g)"
  proof -
    have "length (quads_before g N) \<le> 4 * N"
      unfolding length_quads_before using length_alive_before[of g N] by simp
    moreover have "4 * N \<le> length (Vertices g)"
      using bok by (simp add: buffers_ok_def N_def) linarith
    ultimately show ?thesis by linarith
  qed
  define g3 where "g3 = g2\<lparr>Vertices := quads_before g N @ replicate (length (Vertices g) - length (quads_before g N)) zero_vertex,
              Indices := indices_after (Indices g) N\<rparr>"
  have V2: "Vertices g2 = z" "Indices g2 = Indices g" "Width g2 = Width g" "Height g2 = Height g"
    by (simp_all add: g2_def with_data_def)
  have dz: "drop (length (quads_before g N)) z = replicate (length (Vertices g) - length (quads_before g N)) zero_vertex"
    by (simp add: z_def)
  have ut: "UpdateTriangles g2 = Some g3"
    unfolding UpdateTriangles_Some[OF ok2 bok2] V2 N_def[symmetric] q dz g3_def ..
  have cv: "ClearVertices g = Some (g\<lparr>Vertices := z\<rparr>)"
    unfolding z_def by (rule ClearVertices_Some)
  have ng2: "next_generation (g\<lparr>Vertices := z\<rparr>) (Index g XOR 1) = Some g2"
    unfolding g2_def by (rule ng)
  have f3: "Index g3 = Index g" "Debug g3 = Debug g" "Grids g3 = Grids g2"
    by (simp_all add: g3_def g2_def with_data_def)
  have dbg: "\<exists>gr. at (Grids g2) (Index g XOR 1) = Some gr"
    using nf by (simp add: at_def g2_def)
  then obtain gr where gr: "at (Grids g2) (Index g XOR 1) = Some gr" by blast
  have u: "UpdateCells_mesh g = Some (g3\<lparr>Index := Index g XOR 1, Elapsed := 0\<rparr>)"
    using adv by (simp add: UpdateCells_mesh_def cv ng2 ut f3 gr Let_def)
  have e2: "g2 = (with_data g (nat (Index g XOR 1)) d)
                  \<lparr>Vertices := replicate (length (Vertices g)) zero_vertex\<rparr>"
    by (simp add: g2_def n_def z_def)
  have e3: "g3 = g2\<lparr>Vertices := quads_before g (nat (Width g * Height g))
                        @ replicate (length (Vertices g) - length (quads_before g (nat (Width g * Height g)))) zero_vertex,
                      Indices := indices_after (Indices g) (nat (Width g * Height g))\<rparr>"
    by (simp add: g3_def N_def)
  have n2: "next_generation (g\<lparr>Vertices := replicate (length (Vertices g)) zero_vertex\<rparr>) (Index g XOR 1)
                 = Some g2"
    using ng2 by (simp add: z_def)
  from e2 e3 n2 ut u d rule show ?thesis by blast
qed

lemma UpdateCells_mesh_advance:
  assumes ok: "grids_ok g" and bok: "buffers_ok g"
    and adv: "\<not> Pause g" "sint (TPG g) \<le> sint (Elapsed g)"
  shows "\<exists>d. UpdateCells_mesh g =
             Some ((with_data g (nat (Index g XOR 1)) d)
                    \<lparr>Vertices := quads_before g (nat (Width g * Height g))
                        @ replicate (length (Vertices g) - length (quads_before g (nat (Width g * Height g)))) zero_vertex,
                      Indices := indices_after (Indices g) (nat (Width g * Height g)),
                      Index := Index g XOR 1, Elapsed := 0\<rparr>)
           \<and> length d = nat (Height g) \<and> (\<forall>r<nat (Height g). length (d ! r) = nat (Width g))
           \<and> (\<forall>x y. 0 \<le> x \<and> x < Width g \<and> 0 \<le> y \<and> y < Height g \<longrightarrow>
                 (\<exists>k. CountNeighbors g x y = Some k
                     \<and> d ! nat y ! nat x = CheckRule (active g ! nat y ! nat x) k))"
proof -
  from UpdateCells_mesh_stages[OF assms] obtain d g2 g3 where
    e2: "g2 = (with_data g (nat (Index g XOR 1)) d)
                  \<lparr>Vertices := replicate (length (Vertices g)) zero_vertex\<rparr>"
    and e3: "g3 = g2\<lparr>Vertices := quads_before g (nat (Width g * Height g))
                        @ replicate (length (Vertices g) - length (quads_before g (nat (Width g * Height g)))) zero_vertex,
                      Indices := indices_after (Indices g) (nat (Width g * Height g))\<rparr>"
    and u: "UpdateCells_mesh g = Some (g3\<lparr>Index := Index g XOR 1, Elapsed := 0\<rparr>)"
    and d: "length d = nat (Height g)" "\<forall>r<nat (Height g). length (d ! r) = nat (Width g)"
    and rule: "\<forall>x y. 0 \<le> x \<and> x < Width g \<and> 0 \<le> y \<and> y < Height g \<longrightarrow>
                 (\<exists>k. CountNeighbors g x y = Some k
                     \<and> d ! nat y ! nat x = CheckRule (active g ! nat y ! nat x) k)"
    by blast
  have "UpdateCells_mesh g =
     Some ((with_data g (nat (Index g XOR 1)) d)
                    \<lparr>Vertices := quads_before g (nat (Width g * Height g))
                        @ replicate (length (Vertices g) - length (quads_before g (nat (Width g * Height g)))) zero_vertex,
                      Indices := indices_after (Indices g) (nat (Width g * Height g)),
                      Index := Index g XOR 1, Elapsed := 0\<rparr>)"
    unfolding u e3 e2 by simp
  then show ?thesis using d rule by blast
qed

lemma UpdateCells_pixel_advance:
  assumes ok: "grids_ok g" and pok: "pixels_ok g"
    and adv: "\<not> Pause g" "sint (TPG g) \<le> sint (Elapsed g)"
  shows "\<exists>d. UpdateCells_pixel g =
             Some (pix_at ((with_data g (nat (Index g XOR 1)) d)\<lparr>Index := Index g XOR 1, Elapsed := 0\<rparr>)
                          (nat (ScreenWidth g * ScreenHeight g)))
           \<and> length d = nat (Height g) \<and> (\<forall>r<nat (Height g). length (d ! r) = nat (Width g))
           \<and> (\<forall>x y. 0 \<le> x \<and> x < Width g \<and> 0 \<le> y \<and> y < Height g \<longrightarrow>
                 (\<exists>k. CountNeighbors g x y = Some k
                     \<and> d ! nat y ! nat x = CheckRule (active g ! nat y ! nat x) k))"
proof -
  define n where "n = nat (Index g XOR 1)"
  note nf = grids_ok_next[OF ok]
  from generation_core[OF ok] obtain d where
    ng: "next_generation g (Index g XOR 1) = Some (with_data g n d)"
    and d: "length d = nat (Height g)" "\<forall>r<nat (Height g). length (d ! r) = nat (Width g)"
    and rule: "\<forall>x y. 0 \<le> x \<and> x < Width g \<and> 0 \<le> y \<and> y < Height g \<longrightarrow>
                 (\<exists>k. CountNeighbors g x y = Some k
                     \<and> d ! nat y ! nat x = CheckRule (active g ! nat y ! nat x) k)"
    unfolding n_def by blast
  define g3 where "g3 = (with_data g n d)\<lparr>Index := Index g XOR 1, Elapsed := 0\<rparr>"
  have "grids_ok (with_data g n d)" by (rule grids_ok_with_data[OF ok d])
  then have ok3: "grids_ok g3"
    using nf(2) by (simp add: grids_ok_def g3_def)
  have pok3: "pixels_ok g3"
    using pok by (simp add: pixels_ok_def g3_def with_data_def)
  have f3: "ScreenWidth g3 = ScreenWidth g" "ScreenHeight g3 = ScreenHeight g"
    by (simp_all add: g3_def)
  have up: "UpdatePixels g3 = Some (pix_at g3 (nat (ScreenWidth g * ScreenHeight g)))"
    using UpdatePixels_Some[OF ok3 pok3] by (simp add: f3)
  have "UpdateCells_pixel g = Some (pix_at g3 (nat (ScreenWidth g * ScreenHeight g)))"
    using adv by (simp add: UpdateCells_pixel_def ng Let_def g3_def[symmetric] up)
  then show ?thesis using d rule unfolding g3_def n_def by blast
qed

lemma UpdateCells_idle:
  "Pause mg \<Longrightarrow> UpdateCells_mesh mg = Some mg"
  "Pause pg \<Longrightarrow> UpdateCells_pixel pg = Some pg"
  "\<not> Pause mg \<Longrightarrow> sint (Elapsed mg) < sint (TPG mg) \<Longrightarrow>
     UpdateCells_mesh mg = Some (mg\<lparr>Elapsed := Elapsed mg + 1\<rparr>)"
  "\<not> Pause pg \<Longrightarrow> sint (Elapsed pg) < sint (TPG pg) \<Longrightarrow>
     UpdateCells_pixel pg = Some (pg\<lparr>Elapsed := Elapsed pg + 1\<rparr>)"
  by (simp_all add: UpdateCells_mesh_def UpdateCells_pixel_def)

lemma samples_ok:
  "grids_ok mesh_two" "buffers_ok mesh_two" "grids_ok pixel_one" "pixels_ok pixel_one"
  by (simp_all add: mesh_two_def pixel_one_def grids_ok_def buffers_ok_def pixels_ok_def)

lemma UpdatePixels_pixel:
  assumes ok: "grids_ok g" and pok: "pixels_ok g"
    and xy: "0 \<le> x" "x < ScreenWidth g" "0 \<le> y" "y < ScreenHeight g" and j: "j < 4"
  shows "Pixels (pix_at g (nat (ScreenWidth g * ScreenHeight g))) ! (nat (4 * (x + y * ScreenWidth g)) + j)
         = [shade g x y, shade g x y, shade g x y, 0xff] ! j"
proof -
  define p where "p = nat (y * ScreenWidth g + x)"
  define M where "M = nat (ScreenWidth g * ScreenHeight g)"
  have pM: "p < M" unfolding p_def M_def using position_less[OF xy(3,4,1,2)] .
  have dm: "p div nat (ScreenWidth g) = nat y" "p mod nat (ScreenWidth g) = nat x"
    unfolding p_def using position_div_mod[OF xy(3,1,2)] by simp_all
  have "0 \<le> y * ScreenWidth g" using xy by simp
  then have e: "nat (4 * (x + y * ScreenWidth g)) = 4 * p"
    using xy by (simp add: p_def algebra_simps nat_add_distrib nat_mult_distrib)
  have "4 * p + j < length (pixels_before g M)" using pM j by simp
  then have "Pixels (pix_at g M) ! (4 * p + j) = pixels_before g M ! (4 * p + j)"
    by (simp add: pix_at_def nth_append)
  also have "\<dots> = [shade g x y, shade g x y, shade g x y, 0xff] ! j"
    using pixels_before_nth[OF pM j, of g] xy by (simp add: dm)
  finally show ?thesis unfolding e M_def .
qed

section \<open>Initialisation and successive frames\<close>

lemma NewGrid_Some:
  assumes "0 \<le> w" "0 \<le> h"
  shows "NewGrid w h dens =
     Some \<lparr>Data = replicate (nat h) (replicate (nat w) 0),
           GridWidth = w, GridHeight = h, GridDensity = dens\<rparr>"
proof -
  define g0 where "g0 = \<lparr>Data = replicate (nat h) ([] :: int64 list), GridWidth = w, GridHeight = h, GridDensity = dens\<rparr>"
  let ?row = "replicate (nat w) (0 :: int64)"
  let ?body = "\<lambda>y grid. do {
         r \<leftarrow> make_slice w 0;
         d \<leftarrow> put (Data grid) y r;
         Some (grid\<lparr>Data := d\<rparr>) }"
  have "\<exists>t. for_loop 0 h ?body g0 = Some t \<and>
          (\<exists>d. t = g0\<lparr>Data := d\<rparr> \<and> length d = nat h \<and> (\<forall>i<nat h. d ! i = ?row))"
  proof (rule for_loop_rule[where Inv = "\<lambda>k t. \<exists>d. t = g0\<lparr>Data := d\<rparr> \<and> length d = nat h \<and> (\<forall>i<nat k. d ! i = ?row)"])
    show "\<exists>d. g0 = g0\<lparr>Data := d\<rparr> \<and> length d = nat h \<and> (\<forall>i<nat 0. d ! i = ?row)"
      by (rule exI[of _ "Data g0"]) (simp add: g0_def)
    show "0 \<le> h" by (rule assms)
  next
    fix k t
    assume k: "0 \<le> k" "k < h"
      and "\<exists>d. t = g0\<lparr>Data := d\<rparr> \<and> length d = nat h \<and> (\<forall>i<nat k. d ! i = ?row)"
    then obtain d where t: "t = g0\<lparr>Data := d\<rparr>" and len: "length d = nat h"
      and z: "\<forall>i<nat k. d ! i = ?row" by blast
    have "?body k t = Some (g0\<lparr>Data := d[nat k := ?row]\<rparr>)"
      using k len assms by (simp add: t put_def make_slice_def)
    moreover have "\<forall>i<nat (k + 1). d[nat k := ?row] ! i = ?row"
      using z k len by (auto simp: nth_list_update)
    ultimately show "\<exists>t'. ?body k t = Some t' \<and>
        (\<exists>d. t' = g0\<lparr>Data := d\<rparr> \<and> length d = nat h \<and> (\<forall>i<nat (k + 1). d ! i = ?row))"
      using len by auto
  qed
  then obtain d where l: "for_loop 0 h ?body g0 = Some (g0\<lparr>Data := d\<rparr>)"
    and len: "length d = nat h" and z: "\<forall>i<nat h. d ! i = ?row" by auto
  have "d = replicate (nat h) ?row"
    using len z by (intro nth_equalityI) simp_all
  then show ?thesis using l assms by (simp add: NewGrid_def make_slice_def g0_def)
qed

lemma shaped_update:
  "shaped w h d \<Longrightarrow> shaped w h (d[i := (d ! i)[j := v]])"
proof -
  assume s: "shaped w h d"
  have "length (d[i := (d ! i)[j := v]] ! r) = nat w" if "r < nat h" for r
    using s that by (cases "r = i") (simp_all add: shaped_def)
  then show ?thesis using s by (simp add: shaped_def)
qed

lemma seed_grid_Some:
  assumes sh: "shaped (Width game) (Height game) (Data gr)"
    and dims: "0 \<le> Width game" "0 \<le> Height game" and dens: "0 < Density game"
  shows "\<exists>d. seed_grid rnd game gr = Some (gr\<lparr>Data := d\<rparr>) \<and> shaped (Width game) (Height game) d"
proof -
  let ?W = "Width game" and ?H = "Height game"
  let ?body = "\<lambda>y x grida.
       if Density game \<le> 0 then None
       else if rnd x y = 1 then do {
         r \<leftarrow> at (Data grida) y;
         r' \<leftarrow> put r x 1;
         d \<leftarrow> put (Data grida) y r';
         Some (grida\<lparr>Data := d\<rparr>) }
       else Some grida"
  let ?Inv = "\<lambda>t. \<exists>d. t = gr\<lparr>Data := d\<rparr> \<and> shaped ?W ?H d"
  have step: "\<exists>t'. ?body y x t = Some t' \<and> ?Inv t'"
    if "0 \<le> y" "y < ?H" "0 \<le> x" "x < ?W" "?Inv t" for x y t
  proof -
    from that obtain d where t: "t = gr\<lparr>Data := d\<rparr>" and s: "shaped ?W ?H d" by blast
    have l: "y < int (length d)" "x < int (length (d ! nat y))"
      using s that(1-4) by (auto simp: shaped_def)
    show ?thesis
    proof (cases "rnd x y = 1")
      case True
      have "?body y x t = Some (gr\<lparr>Data := d[nat y := (d ! nat y)[nat x := 1]]\<rparr>)"
        using True dens l that(1,3) by (simp add: t at_def put_def)
      then show ?thesis using shaped_update[OF s] by blast
    next
      case False
      then show ?thesis using dens t s by auto
    qed
  qed
  have row: "\<exists>t'. for_loop 0 ?W (?body y) t = Some t' \<and> ?Inv t'"
    if "0 \<le> y" "y < ?H" "?Inv t" for y t
    by (rule for_loop_rule[where Inv = "\<lambda>k. ?Inv"]) (use that dims step in blast)+
  have "\<exists>t'. for_loop 0 ?H (\<lambda>y. for_loop 0 ?W (?body y)) gr = Some t' \<and> ?Inv t'"
  proof (rule for_loop_rule[where Inv = "\<lambda>k. ?Inv"])
    show "?Inv gr" using sh by (intro exI[of _ "Data gr"]) simp
  qed (use dims row in blast)+
  then show ?thesis unfolding seed_grid_def by blast
qed

lemma Init_mesh_Some:
  assumes "0 \<le> Width g" "0 \<le> Height g" "0 < Density g"
    and img: "1 \<le> Cellsize g" "1 \<le> ScreenWidth g" "1 \<le> ScreenHeight g"
  shows "\<exists>d. shaped (Width g) (Height g) d \<and> Init_mesh rnd g =
     Some (g\<lparr>Grids := [\<lparr>Data = d, GridWidth = Width g, GridHeight = Height g, GridDensity = Density g\<rparr>,
                        \<lparr>Data = replicate (nat (Height g)) (replicate (nat (Width g)) 0),
                           GridWidth = Width g, GridHeight = Height g, GridDensity = Density g\<rparr>],
             Grey := \<lparr>ColR = 128, ColG = 128, ColB = 128, ColA = 0xff\<rparr>,
             Black := \<lparr>ColR = 0, ColG = 0, ColB = 0, ColA = 0xff\<rparr>,
             White := \<lparr>ColR = 200, ColG = 200, ColB = 200, ColA = 0xff\<rparr>,
             Vertices := replicate (nat (ScreenHeight g * ScreenWidth g)) zero_vertex,
             Indices := replicate (nat (ScreenHeight g * ScreenWidth g
                                        + ScreenHeight g * ScreenWidth g div 2)) 0\<rparr>)"
proof -
  define A where "A = \<lparr>Data = replicate (nat (Height g)) (replicate (nat (Width g)) (0 :: int64)),
           GridWidth = Width g, GridHeight = Height g, GridDensity = Density g\<rparr>"
  have ng: "NewGrid (Width g) (Height g) (Density g) = Some A"
    unfolding A_def by (rule NewGrid_Some[OF assms(1,2)])
  have "shaped (Width g) (Height g) (Data A)" by (simp add: A_def shaped_def)
  from seed_grid_Some[OF this assms(1,2,3), of rnd] obtain d where
    sd: "seed_grid rnd g A = Some (A\<lparr>Data := d\<rparr>)" and sh: "shaped (Width g) (Height g) d"
    by blast
  have area: "0 \<le> ScreenHeight g * ScreenWidth g" using img(2,3) by simp
  have q: "go_quo (ScreenHeight g * ScreenWidth g) 2 = Some (ScreenHeight g * ScreenWidth g div 2)"
    using area by (simp add: go_quo_div)
  have "0 \<le> ScreenHeight g * ScreenWidth g div 2"
    using area by (simp add: pos_imp_zdiv_nonneg_iff)
  then have nn: "\<not> ScreenHeight g * ScreenWidth g < 0"
    "\<not> ScreenHeight g * ScreenWidth g + ScreenHeight g * ScreenWidth g div 2 < 0"
    using area by linarith+
  have im: "NewImage (Cellsize g) (Cellsize g) = Some ()"
    "NewImage (ScreenWidth g) (ScreenHeight g) = Some ()"
    using img by (simp_all add: NewImage_def)
  have "Init_mesh rnd g =
     Some (g\<lparr>Grids := [A\<lparr>Data := d\<rparr>, A],
             Grey := \<lparr>ColR = 128, ColG = 128, ColB = 128, ColA = 0xff\<rparr>,
             Black := \<lparr>ColR = 0, ColG = 0, ColB = 0, ColA = 0xff\<rparr>,
             White := \<lparr>ColR = 200, ColG = 200, ColB = 200, ColA = 0xff\<rparr>,
             Vertices := replicate (nat (ScreenHeight g * ScreenWidth g)) zero_vertex,
             Indices := replicate (nat (ScreenHeight g * ScreenWidth g
                                        + ScreenHeight g * ScreenWidth g div 2)) 0\<rparr>)"
    by (simp add: Init_mesh_def ng sd q make_slice_def im nn Let_def)
  then show ?thesis using sh by (auto simp: A_def)
qed

lemma Init_pixel_Some:
  assumes "0 \<le> Width g" "0 \<le> Height g" "0 < Density g"
    and img: "1 \<le> ScreenWidth g" "1 \<le> ScreenHeight g"
  shows "\<exists>d. shaped (Width g) (Height g) d \<and> Init_pixel rnd g =
     Some (g\<lparr>Grids := [\<lparr>Data = d, GridWidth = Width g, GridHeight = Height g, GridDensity = Density g\<rparr>,
                        \<lparr>Data = replicate (nat (Height g)) (replicate (nat (Width g)) 0),
                           GridWidth = Width g, GridHeight = Height g, GridDensity = Density g\<rparr>],
             Pixels := replicate (nat (ScreenWidth g * ScreenHeight g * 4)) 0\<rparr>)"
proof -
  define A where "A = \<lparr>Data = replicate (nat (Height g)) (replicate (nat (Width g)) (0 :: int64)),
           GridWidth = Width g, GridHeight = Height g, GridDensity = Density g\<rparr>"
  have ng: "NewGrid (Width g) (Height g) (Density g) = Some A"
    unfolding A_def by (rule NewGrid_Some[OF assms(1,2)])
  have "shaped (Width g) (Height g) (Data A)" by (simp add: A_def shaped_def)
  from seed_grid_Some[OF this assms(1,2,3), of rnd] obtain d where
    sd: "seed_grid rnd g A = Some (A\<lparr>Data := d\<rparr>)" and sh: "shaped (Width g) (Height g) d"
    by blast
  have nn: "\<not> ScreenWidth g * ScreenHeight g < 0" "\<not> ScreenHeight g * ScreenWidth g < 0"
    using img by (simp_all add: not_less)
  have im: "NewImage (ScreenWidth g) (ScreenHeight g) = Some ()"
    using img by (simp add: NewImage_def)
  have "Init_pixel rnd g =
     Some (g\<lparr>Grids := [A\<lparr>Data := d\<rparr>, A],
             Pixels := replicate (nat (ScreenWidth g * ScreenHeight g * 4)) 0\<rparr>)"
    by (simp add: Init_pixel_def ng sd make_slice_def im nn Let_def)
  then show ?thesis using sh by (auto simp: A_def)
qed

lemma grids_ok_Init:
  assumes "shaped (Width g) (Height g) d" "0 \<le> Width g" "0 \<le> Height g" "Index g = 0 \<or> Index g = 1"
  shows "grids_ok (g\<lparr>Grids := [\<lparr>Data = d, GridWidth = a, GridHeight = b, GridDensity = c\<rparr>,
                        \<lparr>Data = replicate (nat (Height g)) (replicate (nat (Width g)) 0),
                           GridWidth = a', GridHeight = b', GridDensity = c'\<rparr>]\<rparr>)"
proof -
  have "\<forall>r \<in> set d. length r = nat (Width g)"
    using assms(1) by (auto simp: shaped_def in_set_conv_nth)
  then show ?thesis using assms by (auto simp: grids_ok_def shaped_def)
qed

lemma quads_fit:
  assumes "buffers_ok g"
  shows "length (quads_before g (nat (Width g * Height g))) \<le> length (Vertices g)"
proof -
  let ?N = "nat (Width g * Height g)"
  have "length (quads_before g ?N) \<le> 4 * ?N"
    unfolding length_quads_before using length_alive_before[of g ?N] by simp
  moreover have "4 * ?N \<le> length (Vertices g)"
    using assms by (simp add: buffers_ok_def) linarith
  ultimately show ?thesis by linarith
qed

lemma grids_ok_flip:
  assumes "grids_ok g" "length d = nat (Height g)" "\<forall>r<nat (Height g). length (d ! r) = nat (Width g)"
  shows "grids_ok ((with_data g n d)\<lparr>Index := Index g XOR 1\<rparr>)"
  using grids_ok_with_data[OF assms, of n] grids_ok_next(2)[OF assms(1)]
  by (simp add: grids_ok_def)

lemma UpdateCells_mesh_keeps:
  assumes ok: "grids_ok g" and bok: "buffers_ok g"
  shows "\<exists>g'. UpdateCells_mesh g = Some g' \<and> grids_ok g' \<and> buffers_ok g'
           \<and> length (Vertices g') = length (Vertices g) \<and> length (Indices g') = length (Indices g)"
proof (cases "\<not> Pause g \<and> sint (TPG g) \<le> sint (Elapsed g)")
  case True
  from UpdateCells_mesh_advance[OF ok bok] True obtain d where
    u: "UpdateCells_mesh g =
             Some ((with_data g (nat (Index g XOR 1)) d)
                    \<lparr>Vertices := quads_before g (nat (Width g * Height g))
                        @ replicate (length (Vertices g) - length (quads_before g (nat (Width g * Height g)))) zero_vertex,
                      Indices := indices_after (Indices g) (nat (Width g * Height g)),
                      Index := Index g XOR 1, Elapsed := 0\<rparr>)"
    and d: "length d = nat (Height g)" "\<forall>r<nat (Height g). length (d ! r) = nat (Width g)"
    by blast
  have "grids_ok ((with_data g (nat (Index g XOR 1)) d)\<lparr>Index := Index g XOR 1\<rparr>)"
    by (rule grids_ok_flip[OF ok d])
  then have 1: "grids_ok ((with_data g (nat (Index g XOR 1)) d)
                    \<lparr>Vertices := quads_before g (nat (Width g * Height g))
                        @ replicate (length (Vertices g) - length (quads_before g (nat (Width g * Height g)))) zero_vertex,
                      Indices := indices_after (Indices g) (nat (Width g * Height g)),
                      Index := Index g XOR 1, Elapsed := 0\<rparr>)"
    by (simp add: grids_ok_def)
  have 2: "buffers_ok ((with_data g (nat (Index g XOR 1)) d)
                    \<lparr>Vertices := quads_before g (nat (Width g * Height g))
                        @ replicate (length (Vertices g) - length (quads_before g (nat (Width g * Height g)))) zero_vertex,
                      Indices := indices_after (Indices g) (nat (Width g * Height g)),
                      Index := Index g XOR 1, Elapsed := 0\<rparr>)"
    using bok quads_fit[OF bok] by (simp add: buffers_ok_def)
  show ?thesis unfolding u using 1 2 quads_fit[OF bok] by simp
next
  case False
  then consider "Pause g" | "\<not> Pause g" "sint (Elapsed g) < sint (TPG g)" by linarith
  then show ?thesis
  proof cases
    case 1
    then show ?thesis using ok bok by (simp add: UpdateCells_mesh_def)
  next
    case 2
    then show ?thesis using ok bok
      by (simp add: UpdateCells_mesh_def grids_ok_def buffers_ok_def)
  qed
qed

lemma UpdateCells_pixel_keeps:
  assumes ok: "grids_ok g" and pok: "pixels_ok g"
  shows "\<exists>g'. UpdateCells_pixel g = Some g' \<and> grids_ok g' \<and> pixels_ok g'
           \<and> length (Pixels g') = length (Pixels g)"
proof (cases "\<not> Pause g \<and> sint (TPG g) \<le> sint (Elapsed g)")
  case True
  let ?M = "nat (ScreenWidth g * ScreenHeight g)"
  from UpdateCells_pixel_advance[OF ok pok] True obtain d where
    u: "UpdateCells_pixel g =
             Some (pix_at ((with_data g (nat (Index g XOR 1)) d)\<lparr>Index := Index g XOR 1, Elapsed := 0\<rparr>) ?M)"
    and d: "length d = nat (Height g)" "\<forall>r<nat (Height g). length (d ! r) = nat (Width g)"
    by blast
  have "grids_ok ((with_data g (nat (Index g XOR 1)) d)\<lparr>Index := Index g XOR 1\<rparr>)"
    by (rule grids_ok_flip[OF ok d])
  then have 1: "grids_ok (pix_at ((with_data g (nat (Index g XOR 1)) d)\<lparr>Index := Index g XOR 1, Elapsed := 0\<rparr>) ?M)"
    by (simp add: grids_ok_def pix_at_def)
  have M4: "4 * ?M \<le> length (Pixels g)"
    using pok by (simp add: pixels_ok_def) linarith
  then have 2: "pixels_ok (pix_at ((with_data g (nat (Index g XOR 1)) d)\<lparr>Index := Index g XOR 1, Elapsed := 0\<rparr>) ?M)"
    using pok by (simp add: pixels_ok_def pix_at_def with_data_def)
  have 3: "length (Pixels (pix_at ((with_data g (nat (Index g XOR 1)) d)\<lparr>Index := Index g XOR 1, Elapsed := 0\<rparr>) ?M))
      = length (Pixels g)"
    using M4 by (simp add: pix_at_def with_data_def)
  show ?thesis unfolding u using 1 2 3 by simp
next
  case False
  then consider "Pause g" | "\<not> Pause g" "sint (Elapsed g) < sint (TPG g)" by linarith
  then show ?thesis
  proof cases
    case 1
    then show ?thesis using ok pok by (simp add: UpdateCells_pixel_def)
  next
    case 2
    then show ?thesis using ok pok
      by (simp add: UpdateCells_pixel_def grids_ok_def pixels_ok_def)
  qed
qed

lemma frames_mesh_Some:
  "grids_ok g \<Longrightarrow> buffers_ok g \<Longrightarrow> \<exists>g'. frames_mesh keys g = Some g' \<and> grids_ok g' \<and> buffers_ok g'
     \<and> length (Vertices g') = length (Vertices g) \<and> length (Indices g') = length (Indices g)"
proof (induction keys arbitrary: g)
  case Nil
  then show ?case by simp
next
  case (Cons key keys)
  from UpdateCells_mesh_keeps[OF Cons.prems] obtain g1 where
    u: "UpdateCells_mesh g = Some g1" and k: "grids_ok g1" "buffers_ok g1"
    and l: "length (Vertices g1) = length (Vertices g)" "length (Indices g1) = length (Indices g)" by blast
  define g2 where "g2 = (if key then g1\<lparr>Pause := \<not> Pause g1\<rparr> else g1)"
  have "Update_mesh key g = Some g2" by (simp add: Update_mesh_def u g2_def)
  moreover have "grids_ok g2" "buffers_ok g2"
    using k by (simp_all add: g2_def grids_ok_def buffers_ok_def)
  moreover have "length (Vertices g2) = length (Vertices g)" "length (Indices g2) = length (Indices g)"
    using l by (simp_all add: g2_def)
  ultimately show ?case using Cons.IH[of g2] by auto
qed

lemma frames_pixel_Some:
  "grids_ok g \<Longrightarrow> pixels_ok g \<Longrightarrow> \<exists>g'. frames_pixel keys g = Some g' \<and> grids_ok g' \<and> pixels_ok g'
     \<and> length (Pixels g') = length (Pixels g)"
proof (induction keys arbitrary: g)
  case Nil
  then show ?case by simp
next
  case (Cons key keys)
  from UpdateCells_pixel_keeps[OF Cons.prems] obtain g1 where
    u: "UpdateCells_pixel g = Some g1" and k: "grids_ok g1" "pixels_ok g1"
    and l: "length (Pixels g1) = length (Pixels g)" by blast
  define g2 where "g2 = (if key then g1\<lparr>Pause := \<not> Pause g1\<rparr> else g1)"
  have "Update_pixel key g = Some g2" by (simp add: Update_pixel_def u g2_def)
  moreover have "grids_ok g2" "pixels_ok g2"
    using k by (simp_all add: g2_def grids_ok_def pixels_ok_def)
  moreover have "length (Pixels g2) = length (Pixels g)"
    using l by (simp add: g2_def)
  ultimately show ?case using Cons.IH[of g2] by auto
qed

lemma main_mesh_Init:
  "\<exists>g0. Init_mesh rnd main_mesh = Some g0 \<and> grids_ok g0 \<and> buffers_ok g0
        \<and> length (Vertices g0) = 640000 \<and> length (Indices g0) = 960000
        \<and> Width g0 = 200 \<and> Height g0 = 200 \<and> Cellsize g0 = 4
        \<and> Indices g0 = replicate 960000 0"
proof -
  have a: "0 \<le> Width main_mesh" "0 \<le> Height main_mesh" "0 < Density main_mesh"
    "1 \<le> Cellsize main_mesh" "1 \<le> ScreenWidth main_mesh" "1 \<le> ScreenHeight main_mesh"
    "Index main_mesh = 0 \<or> Index main_mesh = 1"
    by (simp_all add: main_mesh_def)
  from Init_mesh_Some[OF a(1-6), of rnd] obtain d g0 where
    sh: "shaped (Width main_mesh) (Height main_mesh) d" and i: "Init_mesh rnd main_mesh = Some g0"
    and g0: "g0 = main_mesh\<lparr>Grids := [\<lparr>Data = d, GridWidth = Width main_mesh, GridHeight = Height main_mesh, GridDensity = Density main_mesh\<rparr>,
                        \<lparr>Data = replicate (nat (Height main_mesh)) (replicate (nat (Width main_mesh)) 0),
                           GridWidth = Width main_mesh, GridHeight = Height main_mesh, GridDensity = Density main_mesh\<rparr>],
             Grey := \<lparr>ColR = 128, ColG = 128, ColB = 128, ColA = 0xff\<rparr>,
             Black := \<lparr>ColR = 0, ColG = 0, ColB = 0, ColA = 0xff\<rparr>,
             White := \<lparr>ColR = 200, ColG = 200, ColB = 200, ColA = 0xff\<rparr>,
             Vertices := replicate (nat (ScreenHeight main_mesh * ScreenWidth main_mesh)) zero_vertex,
             Indices := replicate (nat (ScreenHeight main_mesh * ScreenWidth main_mesh
                                        + ScreenHeight main_mesh * ScreenWidth main_mesh div 2)) 0\<rparr>"
    by blast
  have "grids_ok g0"
    using grids_ok_Init[OF sh a(1,2,7)] unfolding g0 by (simp add: grids_ok_def)
  moreover have "buffers_ok g0 \<and> length (Vertices g0) = 640000 \<and> length (Indices g0) = 960000
        \<and> Width g0 = 200 \<and> Height g0 = 200 \<and> Cellsize g0 = 4
        \<and> Indices g0 = replicate 960000 0"
    unfolding g0 by (simp add: buffers_ok_def main_mesh_def)
  ultimately show ?thesis using i by blast
qed

lemma main_pixel_Init:
  "\<exists>g0. Init_pixel rnd main_pixel = Some g0 \<and> grids_ok g0 \<and> pixels_ok g0
        \<and> length (Pixels g0) = 16000000
        \<and> Width g0 = 500 \<and> Height g0 = 500 \<and> Cellsize g0 = 4"
proof -
  have a: "0 \<le> Width main_pixel" "0 \<le> Height main_pixel" "0 < Density main_pixel"
    "1 \<le> ScreenWidth main_pixel" "1 \<le> ScreenHeight main_pixel"
    "Index main_pixel = 0 \<or> Index main_pixel = 1"
    by (simp_all add: main_pixel_def)
  from Init_pixel_Some[OF a(1-5), of rnd] obtain d g0 where
    sh: "shaped (Width main_pixel) (Height main_pixel) d" and i: "Init_pixel rnd main_pixel = Some g0"
    and g0: "g0 = main_pixel\<lparr>Grids := [\<lparr>Data = d, GridWidth = Width main_pixel, GridHeight = Height main_pixel, GridDensity = Density main_pixel\<rparr>,
                        \<lparr>Data = replicate (nat (Height main_pixel)) (replicate (nat (Width main_pixel)) 0),
                           GridWidth = Width main_pixel, GridHeight = Height main_pixel, GridDensity = Density main_pixel\<rparr>],
             Pixels := replicate (nat (ScreenWidth main_pixel * ScreenHeight main_pixel * 4)) 0\<rparr>"
    by blast
  have "grids_ok g0"
    using grids_ok_Init[OF sh a(1,2,6)] unfolding g0 by (simp add: grids_ok_def)
  moreover have "pixels_ok g0 \<and> length (Pixels g0) = 16000000
        \<and> Width g0 = 500 \<and> Height g0 = 500 \<and> Cellsize g0 = 4"
    unfolding g0 by (simp add: pixels_ok_def main_pixel_def)
  ultimately show ?thesis using i by blast
qed

lemma quad_sizes_iff:
  fixes c m :: int
  assumes "1 \<le> c" "1 \<le> m"
  shows "c * c * m = 4 * m \<longleftrightarrow> c = 2"
    and "c * c * m + c * c * m div 2 = 6 * m \<longleftrightarrow> c = 2"
proof -
  consider "c = 1" | "c = 2" | "3 \<le> c" using assms(1) by linarith
  then have "(c * c * m = 4 * m \<longleftrightarrow> c = 2) \<and> (c * c * m + c * c * m div 2 = 6 * m \<longleftrightarrow> c = 2)"
  proof cases
    case 1
    have "m div 2 \<le> m" using assms(2) by simp
    then show ?thesis using 1 assms(2) by simp
  next
    case 2
    then show ?thesis by simp
  next
    case 3
    define n where "n = c * c * m"
    have "3 * 3 \<le> c * c" using 3 by (intro mult_mono) simp_all
    then have n9: "9 * m \<le> n"
      unfolding n_def using assms(2) mult_right_mono[of 9 "c * c" m] by simp
    then have "0 \<le> n" using assms(2) by linarith
    then have "0 \<le> n div 2" by (simp add: pos_imp_zdiv_nonneg_iff)
    with n9 assms(2) have "n \<noteq> 4 * m" "n + n div 2 \<noteq> 6 * m" by linarith+
    then show ?thesis using 3 unfolding n_def by simp
  qed
  then show "c * c * m = 4 * m \<longleftrightarrow> c = 2"
    and "c * c * m + c * c * m div 2 = 6 * m \<longleftrightarrow> c = 2" by simp_all
qed

section \<open>The index buffer\<close>

lemma put_quad_high:
  assumes "65536 \<le> p"
  shows "put_quad ixs q ! p = ixs ! p"
proof -
  have "unat w \<noteq> p" for w :: uint16
    using unsigned_less[of w, where 'a = nat] assms by simp
  then show ?thesis by (simp add: put_quad_def Let_def)
qed

lemma indices_after_high: "65536 \<le> p \<Longrightarrow> indices_after ixs n ! p = ixs ! p"
  by (induction n) (simp_all add: indices_after_Suc put_quad_high, simp add: indices_after_def)

lemma unat_cursor:
  assumes "6 * q + i < 65536"
  shows "unat ((word_of_nat (6 * q) :: uint16) + word_of_nat i) = 6 * q + i"
proof -
  have e: "(word_of_nat (6 * q) :: uint16) + word_of_nat i = word_of_nat (6 * q + i)"
    by simp
  have "unat (word_of_nat (6 * q + i) :: uint16) = (6 * q + i) mod 2 ^ 16"
    by (simp only: unat_of_nat len_num0 len_num1 len_bit0 len_bit1) simp
  also have "\<dots> = 6 * q + i" using assms by simp
  finally show ?thesis unfolding e .
qed

lemma put_quad_plain:
  assumes "6 * q + 5 < 65536"
  shows "put_quad ixs q =
     ixs[6 * q := word_of_nat (4 * q), 6 * q + 1 := word_of_nat (4 * q) + 1,
         6 * q + 2 := word_of_nat (4 * q) + 3, 6 * q + 3 := word_of_nat (4 * q),
         6 * q + 4 := word_of_nat (4 * q) + 2, 6 * q + 5 := word_of_nat (4 * q) + 3]"
proof -
  have u: "unat (word_of_nat (6 * q) :: uint16) = 6 * q"
    "unat ((word_of_nat (6 * q) :: uint16) + 1) = 6 * q + 1"
    "unat ((word_of_nat (6 * q) :: uint16) + 2) = 6 * q + 2"
    "unat ((word_of_nat (6 * q) :: uint16) + 3) = 6 * q + 3"
    "unat ((word_of_nat (6 * q) :: uint16) + 4) = 6 * q + 4"
    "unat ((word_of_nat (6 * q) :: uint16) + 5) = 6 * q + 5"
    using unat_cursor[of q 0] unat_cursor[of q 1] unat_cursor[of q 2]
      unat_cursor[of q 3] unat_cursor[of q 4] unat_cursor[of q 5] assms
    by simp_all
  show ?thesis unfolding put_quad_def Let_def u ..
qed

lemma indices_after_small:
  assumes "6 * n \<le> 65536" "6 * n \<le> length ixs" "q < n" "j < 6"
  shows "indices_after ixs n ! (6 * q + j) =
     [word_of_nat (4 * q), word_of_nat (4 * q) + 1, word_of_nat (4 * q) + 3,
      word_of_nat (4 * q), word_of_nat (4 * q) + 2, word_of_nat (4 * q) + 3] ! j"
  using assms
proof (induction n)
  case 0
  then show ?case by simp
next
  case (Suc n)
  have p: "put_quad (indices_after ixs n) n =
     (indices_after ixs n)[6 * n := word_of_nat (4 * n), 6 * n + 1 := word_of_nat (4 * n) + 1,
         6 * n + 2 := word_of_nat (4 * n) + 3, 6 * n + 3 := word_of_nat (4 * n),
         6 * n + 4 := word_of_nat (4 * n) + 2, 6 * n + 5 := word_of_nat (4 * n) + 3]"
    by (rule put_quad_plain) (use Suc.prems(1) in simp)
  have len: "6 * n + 5 < length (indices_after ixs n)" using Suc.prems(2) by simp
  show ?case
  proof (cases "q < n")
    case True
    then have "6 * q + j < 6 * n" using Suc.prems(4) by linarith
    then have "indices_after ixs (Suc n) ! (6 * q + j) = indices_after ixs n ! (6 * q + j)"
      unfolding indices_after_Suc p by simp
    then show ?thesis using Suc.IH[OF _ _ True Suc.prems(4)] Suc.prems(1,2) by simp
  next
    case False
    then have q: "q = n" using Suc.prems(3) by simp
    from Suc.prems(4) consider "j = 0" | "j = 1" | "j = 2" | "j = 3" | "j = 4" | "j = 5" by linarith
    then show ?thesis
      unfolding indices_after_Suc p q using len
      by cases simp_all
  qed
qed

lemma last_quad_shipped:
  assumes "length ixs = 960000"
  shows "indices_after ixs 40000 ! 43390 = 28926"
proof -
  have "indices_after ixs 40000 = put_quad (indices_after ixs 39999) 39999"
    using indices_after_Suc[of ixs 39999] by simp
  then show ?thesis using assms by (simp add: put_quad_def)
qed


lemma UpdateTriangles_small_grid:
  assumes ok: "grids_ok g"
    and v: "4 * (Width g * Height g) \<le> int (length (Vertices g))"
    and i: "6 * (Width g * Height g) \<le> int (length (Indices g))" "6 * (Width g * Height g) \<le> 65536"
    and k: "k < nat (Width g * Height g)" "j < 6"
  shows "\<exists>t. UpdateTriangles g = Some t
           \<and> Indices t ! (6 * k + j) =
               [word_of_nat (4 * k), word_of_nat (4 * k) + 1, word_of_nat (4 * k) + 3,
                word_of_nat (4 * k), word_of_nat (4 * k) + 2, word_of_nat (4 * k) + 3] ! j
           \<and> Vertices t = quads_before g (nat (Width g * Height g))
                 @ drop (4 * length (alive_before g (nat (Width g * Height g)))) (Vertices g)"
proof -
  have bok: "buffers_ok g" using v i by (simp add: buffers_ok_def)
  have s: "6 * nat (Width g * Height g) \<le> 65536" "6 * nat (Width g * Height g) \<le> length (Indices g)"
    using i by linarith+
  show ?thesis
    using UpdateTriangles_Some[OF ok bok] indices_after_small[OF s k]
    by (simp add: length_quads_before)
qed

lemma UpdateCells_pixel_draws_new:
  assumes "grids_ok g" "\<not> Pause g" "sint (TPG g) \<le> sint (Elapsed g)"
  shows "\<exists>g2. next_generation g (Index g XOR 1) = Some g2
           \<and> UpdateCells_pixel g = UpdatePixels (g2\<lparr>Index := Index g XOR 1, Elapsed := 0\<rparr>)"
proof -
  from generation_core[OF assms(1)] obtain d where
    "next_generation g (Index g XOR 1) = Some (with_data g (nat (Index g XOR 1)) d)" by blast
  then show ?thesis using assms(2,3) by (simp add: UpdateCells_pixel_def Let_def)
qed

section \<open>The vertices the index slots name\<close>








section \<open>The rule\<close>

text \<open>
  C2. \<^verbatim>\<open>CheckRule\<close> is a function of its two arguments alone; it returns 1 exactly for
  a dead cell with three neighbours and for a live cell with two or three, and 0 for every
  other pair (in particular for all 2 x 9 pairs of a state in {0,1} and a count in 0..8).
\<close>

theorem CheckRule_table:
  "(CheckRule state neighbors = 1 \<longleftrightarrow>
      (state = 0 \<and> neighbors = 3) \<or> (state = 1 \<and> (neighbors = 2 \<or> neighbors = 3)))
   \<and> (CheckRule state neighbors = 0 \<longleftrightarrow>
      \<not> ((state = 0 \<and> neighbors = 3) \<or> (state = 1 \<and> (neighbors = 2 \<or> neighbors = 3))))"
  by (simp add: CheckRule_def)

section \<open>Counting neighbours\<close>

text \<open>
  C3. For a cell \<open>(x, y)\<close> of the grid, \<^verbatim>\<open>CountNeighbors\<close> returns the sum of the
  eight cells around it on the torus (first conjunct), which it computes as the sum of all
  nine cells of the square less the cell itself (second and third conjunct). The wrap-around
  joins opposite edges: the diagonal neighbours beyond the four corners are the opposite
  corners (last four conjuncts), so the count of cell \<open>(0, 0)\<close> includes cell
  \<open>(Width - 1, Height - 1)\<close>.
\<close>

theorem CountNeighbors_torus:
  assumes "grids_ok game" "0 \<le> x" "x < Width game" "0 \<le> y" "y < Height game"
  shows "CountNeighbors game x y =
           Some (wrapped game (x - 1) (y - 1) + wrapped game (x - 1) y + wrapped game (x - 1) (y + 1)
               + wrapped game x (y - 1) + wrapped game x (y + 1)
               + wrapped game (x + 1) (y - 1) + wrapped game (x + 1) y + wrapped game (x + 1) (y + 1))
       \<and> CountNeighbors game x y =
           Some (wrapped game (x - 1) (y - 1) + wrapped game (x - 1) y + wrapped game (x - 1) (y + 1)
               + wrapped game x (y - 1) + wrapped game x y + wrapped game x (y + 1)
               + wrapped game (x + 1) (y - 1) + wrapped game (x + 1) y + wrapped game (x + 1) (y + 1)
               - active game ! nat y ! nat x)
       \<and> wrapped game x y = active game ! nat y ! nat x
       \<and> wrapped game (0 - 1) (0 - 1) = active game ! nat (Height game - 1) ! nat (Width game - 1)
       \<and> wrapped game (Width game - 1 + 1) (0 - 1) = active game ! nat (Height game - 1) ! 0
       \<and> wrapped game (0 - 1) (Height game - 1 + 1) = active game ! 0 ! nat (Width game - 1)
       \<and> wrapped game (Width game - 1 + 1) (Height game - 1 + 1) = active game ! 0 ! 0"
  using assms by (rule CountNeighbors_wrapped)

theorem CountNeighbors_torus_witness:
  "grids_ok torus3 \<and> CountNeighbors torus3 0 0 = Some 2
   \<and> wrapped torus3 (0 - 1) (0 - 1) = active torus3 ! 2 ! 2 \<and> active torus3 ! 2 ! 2 = 1"
  using CountNeighbors_torus [of torus3 0 0]
  by (simp add: torus3_def grids_ok_def wrapped_def active_def)

section \<open>Advancing a generation\<close>

text \<open>
  C1. When \<^verbatim>\<open>UpdateCells\<close> runs with \<^verbatim>\<open>Pause\<close> false and \<^verbatim>\<open>Elapsed >= TPG\<close>, in
  either program, it returns; every cell \<open>(x, y)\<close> of the grid that was not displayed then
  holds \<^verbatim>\<open>CheckRule\<close> of the displayed grid's cell and \<^verbatim>\<open>CountNeighbors(x, y)\<close>; the
  index is the old one xor 1, the displayed grid stays where it was (nothing is copied), and
  \<^verbatim>\<open>Elapsed\<close> is 0. When \<^verbatim>\<open>Pause\<close> is true or \<^verbatim>\<open>Elapsed < TPG\<close>, the grids, the index
  and the render buffers are unchanged.
\<close>

theorem UpdateCells_generation:
  assumes "grids_ok mg" "buffers_ok mg" "grids_ok pg" "pixels_ok pg"
  shows
   "(\<not> Pause mg \<and> sint (TPG mg) \<le> sint (Elapsed mg) \<longrightarrow>
       (\<exists>mg'. UpdateCells_mesh mg = Some mg' \<and> Index mg' = Index mg XOR 1 \<and> Elapsed mg' = 0
          \<and> Grids mg' ! nat (Index mg) = Grids mg ! nat (Index mg)
          \<and> (\<forall>x y. 0 \<le> x \<and> x < Width mg \<and> 0 \<le> y \<and> y < Height mg \<longrightarrow>
                (\<exists>k. CountNeighbors mg x y = Some k \<and>
                   Data (Grids mg' ! nat (Index mg XOR 1)) ! nat y ! nat x
                     = CheckRule (Data (Grids mg ! nat (Index mg)) ! nat y ! nat x) k))))
    \<and> (\<not> Pause pg \<and> sint (TPG pg) \<le> sint (Elapsed pg) \<longrightarrow>
       (\<exists>pg'. UpdateCells_pixel pg = Some pg' \<and> Index pg' = Index pg XOR 1 \<and> Elapsed pg' = 0
          \<and> Grids pg' ! nat (Index pg) = Grids pg ! nat (Index pg)
          \<and> (\<forall>x y. 0 \<le> x \<and> x < Width pg \<and> 0 \<le> y \<and> y < Height pg \<longrightarrow>
                (\<exists>k. CountNeighbors pg x y = Some k \<and>
                   Data (Grids pg' ! nat (Index pg XOR 1)) ! nat y ! nat x
                     = CheckRule (Data (Grids pg ! nat (Index pg)) ! nat y ! nat x) k))))
    \<and> (Pause mg \<or> sint (Elapsed mg) < sint (TPG mg) \<longrightarrow>
       (\<exists>mg'. UpdateCells_mesh mg = Some mg' \<and> Grids mg' = Grids mg \<and> Index mg' = Index mg
          \<and> Vertices mg' = Vertices mg \<and> Indices mg' = Indices mg))
    \<and> (Pause pg \<or> sint (Elapsed pg) < sint (TPG pg) \<longrightarrow>
       (\<exists>pg'. UpdateCells_pixel pg = Some pg' \<and> Grids pg' = Grids pg \<and> Index pg' = Index pg
          \<and> Pixels pg' = Pixels pg))"
proof (intro conjI impI)
  assume adv: "\<not> Pause mg \<and> sint (TPG mg) \<le> sint (Elapsed mg)"
  note nf = grids_ok_next[OF assms(1)]
  from UpdateCells_mesh_advance[OF assms(1,2)] adv obtain d mg' where
    u: "UpdateCells_mesh mg = Some mg'"
    and mg': "mg' = (with_data mg (nat (Index mg XOR 1)) d)
                    \<lparr>Vertices := quads_before mg (nat (Width mg * Height mg))
                        @ replicate (length (Vertices mg) - length (quads_before mg (nat (Width mg * Height mg)))) zero_vertex,
                      Indices := indices_after (Indices mg) (nat (Width mg * Height mg)),
                      Index := Index mg XOR 1, Elapsed := 0\<rparr>"
    and rule: "\<forall>x y. 0 \<le> x \<and> x < Width mg \<and> 0 \<le> y \<and> y < Height mg \<longrightarrow>
                 (\<exists>k. CountNeighbors mg x y = Some k
                     \<and> d ! nat y ! nat x = CheckRule (active mg ! nat y ! nat x) k)"
    by blast
  have "Grids mg' ! nat (Index mg) = Grids mg ! nat (Index mg)"
    "Data (Grids mg' ! nat (Index mg XOR 1)) = d"
    using nf by (simp_all add: mg' with_data_other with_data_same)
  moreover have "Index mg' = Index mg XOR 1" "Elapsed mg' = 0" by (simp_all add: mg')
  ultimately show "\<exists>mg'. UpdateCells_mesh mg = Some mg' \<and> Index mg' = Index mg XOR 1 \<and> Elapsed mg' = 0
          \<and> Grids mg' ! nat (Index mg) = Grids mg ! nat (Index mg)
          \<and> (\<forall>x y. 0 \<le> x \<and> x < Width mg \<and> 0 \<le> y \<and> y < Height mg \<longrightarrow>
                (\<exists>k. CountNeighbors mg x y = Some k \<and>
                   Data (Grids mg' ! nat (Index mg XOR 1)) ! nat y ! nat x
                     = CheckRule (Data (Grids mg ! nat (Index mg)) ! nat y ! nat x) k))"
    using u rule by (simp add: active_def)
next
  assume adv: "\<not> Pause pg \<and> sint (TPG pg) \<le> sint (Elapsed pg)"
  note nf = grids_ok_next[OF assms(3)]
  from UpdateCells_pixel_advance[OF assms(3,4)] adv obtain d pg' where
    u: "UpdateCells_pixel pg = Some pg'"
    and pg': "pg' = pix_at ((with_data pg (nat (Index pg XOR 1)) d)\<lparr>Index := Index pg XOR 1, Elapsed := 0\<rparr>)
                          (nat (ScreenWidth pg * ScreenHeight pg))"
    and rule: "\<forall>x y. 0 \<le> x \<and> x < Width pg \<and> 0 \<le> y \<and> y < Height pg \<longrightarrow>
                 (\<exists>k. CountNeighbors pg x y = Some k
                     \<and> d ! nat y ! nat x = CheckRule (active pg ! nat y ! nat x) k)"
    by blast
  have "Grids pg' ! nat (Index pg) = Grids pg ! nat (Index pg)"
    "Data (Grids pg' ! nat (Index pg XOR 1)) = d"
    using nf by (simp_all add: pg' pix_at_def with_data_other with_data_same)
  moreover have "Index pg' = Index pg XOR 1" "Elapsed pg' = 0" by (simp_all add: pg' pix_at_def)
  ultimately show "\<exists>pg'. UpdateCells_pixel pg = Some pg' \<and> Index pg' = Index pg XOR 1 \<and> Elapsed pg' = 0
          \<and> Grids pg' ! nat (Index pg) = Grids pg ! nat (Index pg)
          \<and> (\<forall>x y. 0 \<le> x \<and> x < Width pg \<and> 0 \<le> y \<and> y < Height pg \<longrightarrow>
                (\<exists>k. CountNeighbors pg x y = Some k \<and>
                   Data (Grids pg' ! nat (Index pg XOR 1)) ! nat y ! nat x
                     = CheckRule (Data (Grids pg ! nat (Index pg)) ! nat y ! nat x) k))"
    using u rule by (simp add: active_def)
next
  assume "Pause mg \<or> sint (Elapsed mg) < sint (TPG mg)"
  then show "\<exists>mg'. UpdateCells_mesh mg = Some mg' \<and> Grids mg' = Grids mg \<and> Index mg' = Index mg
          \<and> Vertices mg' = Vertices mg \<and> Indices mg' = Indices mg"
    by (auto simp: UpdateCells_mesh_def)
next
  assume "Pause pg \<or> sint (Elapsed pg) < sint (TPG pg)"
  then show "\<exists>pg'. UpdateCells_pixel pg = Some pg' \<and> Grids pg' = Grids pg \<and> Index pg' = Index pg
          \<and> Pixels pg' = Pixels pg"
    by (auto simp: UpdateCells_pixel_def)
qed

theorem UpdateCells_generation_witness:
  "grids_ok mesh_two \<and> buffers_ok mesh_two \<and> grids_ok pixel_one \<and> pixels_ok pixel_one
   \<and> \<not> Pause mesh_two \<and> sint (TPG mesh_two) \<le> sint (Elapsed mesh_two)
   \<and> \<not> Pause pixel_one \<and> sint (TPG pixel_one) \<le> sint (Elapsed pixel_one)
   \<and> (\<exists>mg'. UpdateCells_mesh mesh_two = Some mg' \<and> Index mg' = 1 \<and> Elapsed mg' = 0
          \<and> Data (Grids mg' ! 1) ! 0 ! 1 = CheckRule 1 2)
   \<and> (\<exists>pg'. UpdateCells_pixel pixel_one = Some pg' \<and> Index pg' = 1 \<and> Elapsed pg' = 0
          \<and> Data (Grids pg' ! 1) ! 0 ! 0 = CheckRule 1 8)"
proof -
  have a: "\<not> Pause mesh_two \<and> sint (TPG mesh_two) \<le> sint (Elapsed mesh_two)"
    "\<not> Pause pixel_one \<and> sint (TPG pixel_one) \<le> sint (Elapsed pixel_one)"
    by (simp_all add: mesh_two_def pixel_one_def)
  have cm: "CountNeighbors mesh_two 1 0 = Some 2"
    by (simp add: CountNeighbors_def for_loop_3 mesh_two_def go_rem_def cell_def at_def)
  have cp: "CountNeighbors pixel_one 0 0 = Some 8"
    by (simp add: CountNeighbors_def for_loop_3 pixel_one_def go_rem_def cell_def at_def)
  note t = UpdateCells_generation[OF samples_ok]
  from t a(1) obtain mg' where m: "UpdateCells_mesh mesh_two = Some mg'"
    "Index mg' = Index mesh_two XOR 1" "Elapsed mg' = 0"
    "\<forall>x y. 0 \<le> x \<and> x < Width mesh_two \<and> 0 \<le> y \<and> y < Height mesh_two \<longrightarrow>
                (\<exists>k. CountNeighbors mesh_two x y = Some k \<and>
                   Data (Grids mg' ! nat (Index mesh_two XOR 1)) ! nat y ! nat x
                     = CheckRule (Data (Grids mesh_two ! nat (Index mesh_two)) ! nat y ! nat x) k)"
    by blast
  from m(4)[rule_format, of 1 0] cm have "Data (Grids mg' ! 1) ! 0 ! 1 = CheckRule 1 2"
    by (simp add: mesh_two_def)
  moreover from t a(2) obtain pg' where p: "UpdateCells_pixel pixel_one = Some pg'"
    "Index pg' = Index pixel_one XOR 1" "Elapsed pg' = 0"
    "\<forall>x y. 0 \<le> x \<and> x < Width pixel_one \<and> 0 \<le> y \<and> y < Height pixel_one \<longrightarrow>
                (\<exists>k. CountNeighbors pixel_one x y = Some k \<and>
                   Data (Grids pg' ! nat (Index pixel_one XOR 1)) ! nat y ! nat x
                     = CheckRule (Data (Grids pixel_one ! nat (Index pixel_one)) ! nat y ! nat x) k)"
    by blast
  from p(4)[rule_format, of 0 0] cp have "Data (Grids pg' ! 1) ! 0 ! 0 = CheckRule 1 8"
    by (simp add: pixel_one_def)
  ultimately show ?thesis
    using samples_ok a m(1-3) p(1-3) by (simp add: mesh_two_def pixel_one_def)
qed

section \<open>Pause\<close>

lemma Update_paused:
  "Pause mg \<Longrightarrow> Update_mesh False mg = Some mg"
  "Pause pg \<Longrightarrow> Update_pixel False pg = Some pg"
  by (simp_all add: Update_mesh_def Update_pixel_def UpdateCells_mesh_def UpdateCells_pixel_def)

lemma frames_paused:
  "Pause mg \<Longrightarrow> frames_mesh (replicate n False) mg = Some mg"
  "Pause pg \<Longrightarrow> frames_pixel (replicate n False) pg = Some pg"
  by (induction n) (simp_all add: Update_paused)

text \<open>
  C7. While \<^verbatim>\<open>Pause\<close> is true, \<^verbatim>\<open>UpdateCells\<close> and \<^verbatim>\<open>Update\<close> return the game as it
  was, in both programs: the grids, the index, the elapsed counter and the vertex, index and
  pixel buffers are all unchanged, for any number \<open>n\<close> of frames in a row. The frame in
  which the space key is pressed changes nothing but the pause flag.
\<close>

theorem paused_frames_unchanged:
  assumes "Pause mg" "Pause pg"
  shows "UpdateCells_mesh mg = Some mg \<and> UpdateCells_pixel pg = Some pg
       \<and> Update_mesh False mg = Some mg \<and> Update_pixel False pg = Some pg
       \<and> frames_mesh (replicate n False) mg = Some mg
       \<and> frames_pixel (replicate n False) pg = Some pg
       \<and> Update_mesh True mg = Some (mg\<lparr>Pause := False\<rparr>)
       \<and> Update_pixel True pg = Some (pg\<lparr>Pause := False\<rparr>)"
  using assms frames_paused(1) [of mg n] frames_paused(2) [of pg n]
  by (simp add: Update_mesh_def Update_pixel_def UpdateCells_mesh_def UpdateCells_pixel_def)

theorem paused_frames_unchanged_witness:
  "Pause (mesh_two\<lparr>Pause := True\<rparr>) \<and> Pause (pixel_one\<lparr>Pause := True\<rparr>)
   \<and> UpdateCells_mesh (mesh_two\<lparr>Pause := True\<rparr>) = Some (mesh_two\<lparr>Pause := True\<rparr>)
   \<and> frames_mesh (replicate 3 False) (mesh_two\<lparr>Pause := True\<rparr>) = Some (mesh_two\<lparr>Pause := True\<rparr>)
   \<and> frames_pixel (replicate 3 False) (pixel_one\<lparr>Pause := True\<rparr>) = Some (pixel_one\<lparr>Pause := True\<rparr>)"
  using paused_frames_unchanged [of "mesh_two\<lparr>Pause := True\<rparr>" "pixel_one\<lparr>Pause := True\<rparr>" 3]
  by simp

section \<open>The pixel buffer\<close>

text \<open>
  C8. \<^verbatim>\<open>UpdatePixels\<close> returns, and for every screen pixel \<open>(x, y)\<close> the four bytes at
  offset \<open>4 * (x + y * ScreenWidth)\<close> are \<open>(c, c, c, 0xff)\<close>, where \<open>c\<close> is 128 when
  gridlines are on and \<open>x\<close> or \<open>y\<close> is a multiple of the cell size, and otherwise 0 when the
  cell \<open>(x / Cellsize, y / Cellsize)\<close> of the displayed grid is alive and 255 when it is not.
  Nothing else of the game changes.
\<close>

theorem UpdatePixels_bytes:
  assumes "grids_ok g" "pixels_ok g" "0 \<le> x" "x < ScreenWidth g" "0 \<le> y" "y < ScreenHeight g"
  shows "\<exists>g' c. UpdatePixels g = Some g'
           \<and> c = (if Gridlines g \<and> (x mod Cellsize g = 0 \<or> y mod Cellsize g = 0) then 128
                  else if Data (Grids g ! nat (Index g)) ! nat (y div Cellsize g) ! nat (x div Cellsize g) = 1
                  then 0 else 255)
           \<and> Pixels g' ! nat (4 * (x + y * ScreenWidth g)) = c
           \<and> Pixels g' ! (nat (4 * (x + y * ScreenWidth g)) + 1) = c
           \<and> Pixels g' ! (nat (4 * (x + y * ScreenWidth g)) + 2) = c
           \<and> Pixels g' ! (nat (4 * (x + y * ScreenWidth g)) + 3) = 0xff
           \<and> length (Pixels g') = length (Pixels g) \<and> g' = g\<lparr>Pixels := Pixels g'\<rparr>"
proof -
  let ?M = "nat (ScreenWidth g * ScreenHeight g)"
  have "4 * ?M \<le> length (Pixels g)"
    using assms(2) by (simp add: pixels_ok_def) linarith
  then have len: "length (Pixels (pix_at g ?M)) = length (Pixels g)"
    by (simp add: pix_at_def)
  have sh: "shade g x y = (if Gridlines g \<and> (x mod Cellsize g = 0 \<or> y mod Cellsize g = 0) then 128
                  else if Data (Grids g ! nat (Index g)) ! nat (y div Cellsize g) ! nat (x div Cellsize g) = 1
                  then 0 else 255)"
    by (simp add: shade_def active_def)
  show ?thesis
    using UpdatePixels_Some[OF assms(1,2)] len
      UpdatePixels_pixel[OF assms, of 0] UpdatePixels_pixel[OF assms, of 1]
      UpdatePixels_pixel[OF assms, of 2] UpdatePixels_pixel[OF assms, of 3]
    unfolding sh by (simp add: pix_at_def)
qed

theorem UpdatePixels_bytes_witness:
  "grids_ok pixel_one \<and> pixels_ok pixel_one
   \<and> (\<exists>g'. UpdatePixels pixel_one = Some g'
         \<and> Pixels g' ! 8 = 128 \<and> Pixels g' ! 9 = 128 \<and> Pixels g' ! 10 = 128 \<and> Pixels g' ! 11 = 255)
   \<and> (\<exists>g'. UpdatePixels pixel_one = Some g'
         \<and> Pixels g' ! 12 = 0 \<and> Pixels g' ! 13 = 0 \<and> Pixels g' ! 14 = 0 \<and> Pixels g' ! 15 = 255)"
proof -
  have "\<exists>g'. UpdatePixels pixel_one = Some g'
         \<and> Pixels g' ! 8 = 128 \<and> Pixels g' ! 9 = 128 \<and> Pixels g' ! 10 = 128 \<and> Pixels g' ! 11 = 255"
    using UpdatePixels_bytes [of pixel_one 0 1] samples_ok(3,4)
    by (simp add: pixel_one_def) blast
  moreover have "\<exists>g'. UpdatePixels pixel_one = Some g'
         \<and> Pixels g' ! 12 = 0 \<and> Pixels g' ! 13 = 0 \<and> Pixels g' ! 14 = 0 \<and> Pixels g' ! 15 = 255"
    using UpdatePixels_bytes [of pixel_one 1 1] samples_ok(3,4)
    by (simp add: pixel_one_def) blast
  ultimately show ?thesis using samples_ok(3,4) by blast
qed

section \<open>Bounds under the shipped configurations\<close>

text \<open>
  C10. With the configurations of the two \<^verbatim>\<open>main\<close> functions (a 200 x 200 grid for the
  mesh, a 500 x 500 grid for the pixels, cell size 4, the screen four times the grid),
  \<^verbatim>\<open>Init\<close> returns for every outcome \<open>rnd\<close> of the random seeding, and from the game it
  builds every sequence of frames returns, whatever keys are pressed: no slice access of
  \<^verbatim>\<open>UpdateCells\<close>, \<^verbatim>\<open>CountNeighbors\<close>, \<^verbatim>\<open>ClearVertices\<close>, \<^verbatim>\<open>UpdateTriangles\<close> or
  \<^verbatim>\<open>UpdatePixels\<close> is out of range (an access out of range is \<open>None\<close>). The buffers keep
  the lengths \<^verbatim>\<open>Init\<close> gave them.
\<close>

theorem shipped_frames_in_bounds:
  "(\<exists>g0 g t. Init_mesh rnd main_mesh = Some g0
        \<and> length (Vertices g0) = 640000 \<and> length (Indices g0) = 960000
        \<and> frames_mesh keys g0 = Some g
        \<and> length (Vertices g) = 640000 \<and> length (Indices g) = 960000
        \<and> UpdateTriangles g = Some t)
   \<and> (\<exists>g0 g t. Init_pixel rnd main_pixel = Some g0 \<and> length (Pixels g0) = 16000000
        \<and> frames_pixel keys g0 = Some g \<and> length (Pixels g) = 16000000
        \<and> UpdatePixels g = Some t)"
proof
  from main_mesh_Init[of rnd] obtain g0 where
    i: "Init_mesh rnd main_mesh = Some g0" "grids_ok g0" "buffers_ok g0"
      "length (Vertices g0) = 640000" "length (Indices g0) = 960000" by blast
  from frames_mesh_Some[OF i(2,3), of keys] obtain g where
    f: "frames_mesh keys g0 = Some g" "grids_ok g" "buffers_ok g"
      "length (Vertices g) = length (Vertices g0)" "length (Indices g) = length (Indices g0)" by blast
  show "\<exists>g0 g t. Init_mesh rnd main_mesh = Some g0
        \<and> length (Vertices g0) = 640000 \<and> length (Indices g0) = 960000
        \<and> frames_mesh keys g0 = Some g
        \<and> length (Vertices g) = 640000 \<and> length (Indices g) = 960000
        \<and> UpdateTriangles g = Some t"
    using i f UpdateTriangles_Some[OF f(2,3)] by simp
next
  from main_pixel_Init[of rnd] obtain g0 where
    i: "Init_pixel rnd main_pixel = Some g0" "grids_ok g0" "pixels_ok g0"
      "length (Pixels g0) = 16000000" by blast
  from frames_pixel_Some[OF i(2,3), of keys] obtain g where
    f: "frames_pixel keys g0 = Some g" "grids_ok g" "pixels_ok g"
      "length (Pixels g) = length (Pixels g0)" by blast
  show "\<exists>g0 g t. Init_pixel rnd main_pixel = Some g0 \<and> length (Pixels g0) = 16000000
        \<and> frames_pixel keys g0 = Some g \<and> length (Pixels g) = 16000000
        \<and> UpdatePixels g = Some t"
    using i f UpdatePixels_Some[OF f(2,3)] by simp
qed


section \<open>Buffer sizes\<close>

text \<open>
  C5, as amended. Take a game whose dimensions are 32-bit \<^verbatim>\<open>int\<close> values, with a grid
  width and height of at least 0, a positive density and screen sides of at least 1 (for the
  mesh program also a cell size of at least 1), and a screen area small enough that the lengths
  \<^verbatim>\<open>Init\<close> computes stay below \<open>2^31\<close>. Then \<^verbatim>\<open>Init\<close> of the mesh program returns, with
  exactly \<open>ScreenWidth * ScreenHeight\<close> vertices and that number plus its half, rounded down,
  of indices. When the screen is \<open>Cellsize\<close> times the grid, as \<^verbatim>\<open>main\<close> sets it, that is
  \<open>Cellsize * Cellsize\<close> vertices for every cell, and the vertex buffer holds four vertices
  per cell exactly when the cell size is 2, as does the index buffer six indices per cell.
  \<^verbatim>\<open>Init\<close> of the pixel program returns with exactly \<open>4 * ScreenWidth * ScreenHeight\<close> bytes.
\<close>

theorem Init_buffer_sizes:
  assumes "int32_fields mg" "0 \<le> Width mg" "0 \<le> Height mg" "0 < Density mg" "1 \<le> Cellsize mg"
    "1 \<le> ScreenWidth mg" "1 \<le> ScreenHeight mg"
    "ScreenHeight mg * ScreenWidth mg + ScreenHeight mg * ScreenWidth mg div 2 < 2 ^ 31"
    and "int32_fields pg" "0 \<le> Width pg" "0 \<le> Height pg" "0 < Density pg"
    "1 \<le> ScreenWidth pg" "1 \<le> ScreenHeight pg"
    "ScreenWidth pg * ScreenHeight pg * 4 < 2 ^ 31"
  shows "(\<exists>mg'. Init_mesh rnd mg = Some mg'
            \<and> int (length (Vertices mg')) = ScreenWidth mg * ScreenHeight mg
            \<and> int (length (Indices mg')) =
                  ScreenWidth mg * ScreenHeight mg + ScreenWidth mg * ScreenHeight mg div 2
            \<and> (ScreenWidth mg = Width mg * Cellsize mg \<and> ScreenHeight mg = Height mg * Cellsize mg \<longrightarrow>
                  int (length (Vertices mg')) = Cellsize mg * Cellsize mg * (Width mg * Height mg)
                  \<and> (int (length (Vertices mg')) = 4 * (Width mg * Height mg) \<longleftrightarrow> Cellsize mg = 2)
                  \<and> (int (length (Indices mg')) = 6 * (Width mg * Height mg) \<longleftrightarrow> Cellsize mg = 2)))
       \<and> (\<exists>pg'. Init_pixel rnd pg = Some pg'
            \<and> int (length (Pixels pg')) = 4 * ScreenWidth pg * ScreenHeight pg)"
proof
  let ?n = "ScreenWidth mg * ScreenHeight mg"
  have nn: "0 \<le> ?n" using assms(6,7) by simp
  then have h: "0 \<le> ?n div 2" by (simp add: pos_imp_zdiv_nonneg_iff)
  from Init_mesh_Some[OF assms(2-7), of rnd] obtain mg' where
    i: "Init_mesh rnd mg = Some mg'"
    and v: "Vertices mg' = replicate (nat (ScreenHeight mg * ScreenWidth mg)) zero_vertex"
    and x: "Indices mg' = replicate (nat (ScreenHeight mg * ScreenWidth mg
                                        + ScreenHeight mg * ScreenWidth mg div 2)) 0"
    by auto
  have lv: "int (length (Vertices mg')) = ?n"
    using nn by (simp add: v mult.commute)
  have lx: "int (length (Indices mg')) = ?n + ?n div 2"
    using nn h by (simp add: x mult.commute)
  have per: "int (length (Vertices mg')) = Cellsize mg * Cellsize mg * (Width mg * Height mg)
       \<and> (int (length (Vertices mg')) = 4 * (Width mg * Height mg) \<longleftrightarrow> Cellsize mg = 2)
       \<and> (int (length (Indices mg')) = 6 * (Width mg * Height mg) \<longleftrightarrow> Cellsize mg = 2)"
    if s: "ScreenWidth mg = Width mg * Cellsize mg" "ScreenHeight mg = Height mg * Cellsize mg"
  proof -
    have w: "1 \<le> Width mg"
    proof (rule ccontr)
      assume "\<not> 1 \<le> Width mg"
      then have "Width mg = 0" using assms(2) by linarith
      then show False using assms(6) s(1) by simp
    qed
    have ht: "1 \<le> Height mg"
    proof (rule ccontr)
      assume "\<not> 1 \<le> Height mg"
      then have "Height mg = 0" using assms(3) by linarith
      then show False using assms(7) s(2) by simp
    qed
    have m: "1 \<le> Width mg * Height mg"
      using mult_mono[of 1 "Width mg" 1 "Height mg"] w ht by simp
    have e: "?n = Cellsize mg * Cellsize mg * (Width mg * Height mg)"
      by (simp add: s algebra_simps)
    show ?thesis
      unfolding lv lx e using quad_sizes_iff[OF assms(5) m] by simp
  qed
  show "\<exists>mg'. Init_mesh rnd mg = Some mg'
            \<and> int (length (Vertices mg')) = ScreenWidth mg * ScreenHeight mg
            \<and> int (length (Indices mg')) =
                  ScreenWidth mg * ScreenHeight mg + ScreenWidth mg * ScreenHeight mg div 2
            \<and> (ScreenWidth mg = Width mg * Cellsize mg \<and> ScreenHeight mg = Height mg * Cellsize mg \<longrightarrow>
                  int (length (Vertices mg')) = Cellsize mg * Cellsize mg * (Width mg * Height mg)
                  \<and> (int (length (Vertices mg')) = 4 * (Width mg * Height mg) \<longleftrightarrow> Cellsize mg = 2)
                  \<and> (int (length (Indices mg')) = 6 * (Width mg * Height mg) \<longleftrightarrow> Cellsize mg = 2))"
    using i lv lx per by blast
next
  have nn: "0 \<le> ScreenWidth pg * ScreenHeight pg" using assms(13,14) by simp
  from Init_pixel_Some[OF assms(10-14), of rnd] obtain pg' where
    i: "Init_pixel rnd pg = Some pg'"
    and p: "Pixels pg' = replicate (nat (ScreenWidth pg * ScreenHeight pg * 4)) 0"
    by auto
  have "int (length (Pixels pg')) = 4 * ScreenWidth pg * ScreenHeight pg"
    using nn by (simp add: p)
  then show "\<exists>pg'. Init_pixel rnd pg = Some pg'
            \<and> int (length (Pixels pg')) = 4 * ScreenWidth pg * ScreenHeight pg"
    using i by blast
qed

theorem Init_buffer_sizes_witness:
  "int32_fields main_mesh \<and> 0 \<le> Width main_mesh \<and> 0 \<le> Height main_mesh \<and> 0 < Density main_mesh
   \<and> 1 \<le> Cellsize main_mesh \<and> 1 \<le> ScreenWidth main_mesh \<and> 1 \<le> ScreenHeight main_mesh
   \<and> ScreenHeight main_mesh * ScreenWidth main_mesh
         + ScreenHeight main_mesh * ScreenWidth main_mesh div 2 < 2 ^ 31
   \<and> int32_fields main_pixel \<and> 0 \<le> Width main_pixel \<and> 0 \<le> Height main_pixel \<and> 0 < Density main_pixel
   \<and> 1 \<le> ScreenWidth main_pixel \<and> 1 \<le> ScreenHeight main_pixel
   \<and> ScreenWidth main_pixel * ScreenHeight main_pixel * 4 < 2 ^ 31
   \<and> ScreenWidth main_mesh = Width main_mesh * Cellsize main_mesh
   \<and> ScreenHeight main_mesh = Height main_mesh * Cellsize main_mesh
   \<and> Cellsize main_mesh * Cellsize main_mesh * (Width main_mesh * Height main_mesh) = 640000
   \<and> 4 * (Width main_mesh * Height main_mesh) = 160000
   \<and> 6 * (Width main_mesh * Height main_mesh) = 240000
   \<and> (\<exists>mg'. Init_mesh (\<lambda>x y. 0) main_mesh = Some mg'
         \<and> int (length (Vertices mg')) = 640000 \<and> int (length (Indices mg')) = 960000)
   \<and> (\<exists>pg'. Init_pixel (\<lambda>x y. 0) main_pixel = Some pg' \<and> int (length (Pixels pg')) = 16000000)"
proof -
  have a: "int32_fields main_mesh" "0 \<le> Width main_mesh" "0 \<le> Height main_mesh" "0 < Density main_mesh"
    "1 \<le> Cellsize main_mesh" "1 \<le> ScreenWidth main_mesh" "1 \<le> ScreenHeight main_mesh"
    "ScreenHeight main_mesh * ScreenWidth main_mesh
         + ScreenHeight main_mesh * ScreenWidth main_mesh div 2 < 2 ^ 31"
    "int32_fields main_pixel" "0 \<le> Width main_pixel" "0 \<le> Height main_pixel" "0 < Density main_pixel"
    "1 \<le> ScreenWidth main_pixel" "1 \<le> ScreenHeight main_pixel"
    "ScreenWidth main_pixel * ScreenHeight main_pixel * 4 < 2 ^ 31"
    by (simp_all add: main_mesh_def main_pixel_def int32_fields_def int32_def)
  have s: "ScreenWidth main_mesh * ScreenHeight main_mesh = 640000"
    "ScreenWidth main_pixel * ScreenHeight main_pixel = 4000000"
    "4 * ScreenWidth main_pixel * ScreenHeight main_pixel = 16000000"
    "ScreenWidth main_mesh = Width main_mesh * Cellsize main_mesh"
    "ScreenHeight main_mesh = Height main_mesh * Cellsize main_mesh"
    "Cellsize main_mesh * Cellsize main_mesh * (Width main_mesh * Height main_mesh) = 640000"
    "4 * (Width main_mesh * Height main_mesh) = 160000"
    "6 * (Width main_mesh * Height main_mesh) = 240000"
    by (simp_all add: main_mesh_def main_pixel_def)
  from Init_buffer_sizes [OF a, of "\<lambda>x y. 0"] have
    "(\<exists>mg'. Init_mesh (\<lambda>x y. 0) main_mesh = Some mg'
         \<and> int (length (Vertices mg')) = 640000 \<and> int (length (Indices mg')) = 960000)
     \<and> (\<exists>pg'. Init_pixel (\<lambda>x y. 0) main_pixel = Some pg' \<and> int (length (Pixels pg')) = 16000000)"
    unfolding s(1,2,3) by auto
  then show ?thesis using a s(4-8) by simp
qed

text \<open>
  The claim as stated fails for the shipped mesh configuration: 640000 vertices and 960000
  indices are allocated for 40000 cells, not 160000 and 240000.
\<close>

theorem Init_mesh_sizes_counterexample:
  "map_option (\<lambda>g. (length (Vertices g), length (Indices g))) (Init_mesh (\<lambda>x y. 0) main_mesh)
     = Some (640000, 960000)
   \<and> 4 * (Width main_mesh * Height main_mesh) = 160000
   \<and> 6 * (Width main_mesh * Height main_mesh) = 240000"
  using main_mesh_Init [of "\<lambda>x y. 0"] by (auto simp: main_mesh_def)

section \<open>Which generation the mesh shows\<close>

text \<open>
  C4. In the pixel program \<^verbatim>\<open>UpdateCells\<close> flips the index before \<^verbatim>\<open>UpdatePixels\<close>
  runs (lemma \<open>UpdateCells_pixel_draws_new\<close>), so the pixels show the generation just
  computed. In the mesh program \<^verbatim>\<open>UpdateTriangles\<close> runs before the flip and reads the
  grid that was displayed: for one alive cell, which dies in the new generation, the
  vertices after \<^verbatim>\<open>UpdateCells\<close> are those of the cell, while a rebuild from the newly
  displayed grid leaves the cleared vertices zero.
\<close>

theorem mesh_rebuild_reads_previous_generation:
  "UpdateCells_mesh mesh_one = Some mesh_one_next
   \<and> active mesh_one = [[1]] \<and> active mesh_one_next = [[0]]
   \<and> Vertices mesh_one_next = cell_quad mesh_one 0 0
   \<and> Vertices mesh_one_next \<noteq> replicate 4 zero_vertex
   \<and> UpdateTriangles (mesh_one_next\<lparr>Vertices := replicate 4 zero_vertex\<rparr>)
        = Some (mesh_one_next\<lparr>Vertices := replicate 4 zero_vertex\<rparr>)"
  by code_simp

section \<open>The index cursor\<close>

text \<open>
  C6. On a grid of at most 10922 cells the index slots \<open>6k .. 6k + 5\<close> of every cell hold
  the quad pattern and the vertices of the alive cells are packed from position 0 (lemma
  \<open>UpdateTriangles_small_grid\<close>). The cursor \<^verbatim>\<open>index\<close> is a \<^verbatim>\<open>uint16\<close>, so on the
  shipped grid of 40000 cells it wraps: after \<^verbatim>\<open>UpdateTriangles\<close> on the game \<^verbatim>\<open>Init\<close>
  builds, slot \<open>6 * 39999\<close> of the last cell still holds 0, not \<open>4 * 39999 mod 2^16 = 28924\<close>;
  and slot 43390, which is \<open>6 * 29077 mod 2^16\<close>, holds 28926, written for the last cell, not
  \<open>4 * 29077 mod 2^16 = 50772\<close>.
\<close>

theorem index_cursor_wraps:
  "\<exists>g0 t. Init_mesh rnd main_mesh = Some g0 \<and> UpdateTriangles g0 = Some t
      \<and> Width g0 * Height g0 = 40000 \<and> length (Indices t) = 960000
      \<and> Indices t ! (6 * 39999) = 0 \<and> (word_of_nat (4 * 39999) :: uint16) = 28924
      \<and> (word_of_nat (6 * 29077) :: uint16) = 43390 \<and> (word_of_nat (4 * 29077) :: uint16) = 50772
      \<and> Indices t ! 43390 = 28926"
proof -
  from main_mesh_Init[of rnd] obtain g0 where
    i: "Init_mesh rnd main_mesh = Some g0" "grids_ok g0" "buffers_ok g0"
      "Width g0 = 200" "Height g0 = 200" "Indices g0 = replicate 960000 0" by blast
  define t where "t = g0\<lparr>Vertices := quads_before g0 40000 @ drop (length (quads_before g0 40000)) (Vertices g0),
             Indices := indices_after (Indices g0) 40000\<rparr>"
  have u: "UpdateTriangles g0 = Some t"
    using UpdateTriangles_Some[OF i(2,3)] by (simp add: i(4,5) t_def)
  have "Indices t ! (6 * 39999) = 0"
    by (simp add: t_def indices_after_high i(6))
  moreover have "Indices t ! 43390 = 28926"
    using last_quad_shipped[of "Indices g0"] by (simp add: t_def i(6))
  moreover have "length (Indices t) = 960000" by (simp add: t_def i(6))
  ultimately show ?thesis using i(1,4,5) u by simp
qed

section \<open>What the index slots of a dead cell reference\<close>




end
